theory Spec2Isabelle
  imports Complex_Main
begin

section \<open>Data model\<close>

text \<open>
  Python values that are not statically typed (the entries of a violation dictionary, the
  decoded response of the model-backed analyzer) are values of type \<open>json\<close>. A Python
  \<open>dict\<close> is an association list with distinct keys in insertion order. Python floats
  are modelled as exact reals: every threshold comparison of the source is taken on the
  mathematical value of its operands. Where a double operation rounds (the sum 0.65 + 0.05,
  a product such as 90 * 0.7, a quotient next to a threshold, \<^verbatim>\<open>round\<close> next to a
  tie), the value the code computes can differ from the model's in its last place.
\<close>

datatype json =
    JNull
  | JBool bool
  | JNum real
  | JStr string
  | JArr "json list"
  | JObj "(string \<times> json) list"

text \<open>
  \<open>ViolationResult\<close> of \<^verbatim>\<open>base_analyzer.py\<close>, which has the same fields as the
  dictionaries the category analyzers return. The dataclass does not check its field types, so
  every field holds a \<open>json\<close> value. The two free-text fields \<open>description\<close> and
  \<open>recommendation\<close> are not modelled: they are formatted prose that no decision of the
  program reads.
\<close>

record ViolationResult =
  vtype :: json
  severity :: json
  ada_code :: json
  confidence :: json
  detection_method :: json
  measurements :: "(string \<times> json) list"

text \<open>\<open>DetectionResult\<close> of the detector; \<open>bbox\<close> is (x, y, width, height).\<close>

record DetectionResult =
  class_id :: int
  class_name :: string
  det_confidence :: real
  bbox :: "int \<times> int \<times> int \<times> int"
  center :: "int \<times> int"

text \<open>
  An image region (a numpy array of shape (height, width, 3)) is seen by the analyzers only
  through its shape and through OpenCV calls. The record holds the shape and the value of
  each of those calls on the region; arrays are functions from (row, column) to the entry,
  read only inside the shape.
  \<^item> \<open>hsv\<close>: \<^verbatim>\<open>cv2.cvtColor(image, cv2.COLOR_BGR2HSV)\<close>;
  \<^item> \<open>lab_l\<close>: channel 0 of \<^verbatim>\<open>cv2.cvtColor(image, cv2.COLOR_BGR2LAB)\<close>;
  \<^item> \<open>gray\<close>: \<^verbatim>\<open>cv2.cvtColor(image, cv2.COLOR_BGR2GRAY)\<close>;
  \<^item> \<open>edges\<close>: \<^verbatim>\<open>cv2.Canny(gray, 50, 150)\<close>;
  \<^item> \<open>contour_shapes\<close>: for each contour that \<^verbatim>\<open>cv2.findContours\<close> returns on the
    Canny edges of the middle section, its \<^verbatim>\<open>contourArea\<close> and the width and height of
    its \<^verbatim>\<open>boundingRect\<close>;
  \<^item> \<open>slope_lines\<close>: \<^verbatim>\<open>cv2.HoughLinesP\<close> as called by the slope check (threshold 50),
    \<open>None\<close> when it returns \<^verbatim>\<open>None\<close>, each segment as (x1, y1, x2, y2);
  \<^item> \<open>handrail_lines\<close>: \<^verbatim>\<open>cv2.HoughLinesP\<close> as called by the handrail check
    (threshold 40).
\<close>

record region =
  height :: nat
  width :: nat
  hsv :: "nat \<Rightarrow> nat \<Rightarrow> nat \<times> nat \<times> nat"
  lab_l :: "nat \<Rightarrow> nat \<Rightarrow> nat"
  gray :: "nat \<Rightarrow> nat \<Rightarrow> nat"
  edges :: "nat \<Rightarrow> nat \<Rightarrow> nat"
  contour_shapes :: "(real \<times> nat \<times> nat) list"
  slope_lines :: "(int \<times> int \<times> int \<times> int) list option"
  handrail_lines :: "(int \<times> int \<times> int \<times> int) list option"

definition image_size :: "region \<Rightarrow> nat" where
  \<comment> \<open>\<^verbatim>\<open>img.size\<close>: the number of array entries\<close>
  "image_size img = height img * width img * 3"

definition rows :: "region \<Rightarrow> (nat \<Rightarrow> nat \<Rightarrow> 'a) \<Rightarrow> 'a list list" where
  \<comment> \<open>a two-dimensional array of the region's shape, as the list of its rows\<close>
  "rows img a = map (\<lambda>i. map (a i) [0..<width img]) [0..<height img]"

subsection \<open>Helpers for Python built-ins\<close>

definition py_round :: "real \<Rightarrow> int" where
  \<comment> \<open>\<^verbatim>\<open>round(x)\<close>: to the nearest integer, a tie to the even one\<close>
  "py_round x =
     (let f = \<lfloor>x\<rfloor>; d = x - of_int f
      in if d < 1/2 then f else if d > 1/2 then f + 1 else if even f then f else f + 1)"

definition round_to :: "real \<Rightarrow> nat \<Rightarrow> real" where
  \<comment> \<open>\<^verbatim>\<open>round(x, n)\<close>\<close>
  "round_to x n = of_int (py_round (x * 10 ^ n)) / 10 ^ n"

definition lower_char :: "char \<Rightarrow> char" where
  "lower_char c =
     (let n = (of_char c :: nat) in if 65 \<le> n \<and> n \<le> 90 then char_of (n + 32) else c)"

definition lower :: "string \<Rightarrow> string" where
  \<comment> \<open>\<^verbatim>\<open>str.lower()\<close> on ASCII text\<close>
  "lower s = map lower_char s"

definition dict_get :: "(string \<times> json) list \<Rightarrow> string \<Rightarrow> json \<Rightarrow> json" where
  \<comment> \<open>\<^verbatim>\<open>d.get(key, default)\<close>\<close>
  "dict_get d k dflt = (case map_of d k of Some v \<Rightarrow> v | None \<Rightarrow> dflt)"

definition found :: "ViolationResult option \<Rightarrow> ViolationResult list" where
  \<comment> \<open>\<^verbatim>\<open>if violation: violations.append(violation)\<close>\<close>
  "found v = (case v of None \<Rightarrow> [] | Some d \<Rightarrow> [d])"

section \<open>Door analyzer\<close>

definition narrow_door_ratio :: real where "narrow_door_ratio = 2.5"
definition very_narrow_ratio :: real where "very_narrow_ratio = 3.0"

definition check_width :: "region \<Rightarrow> nat \<Rightarrow> nat \<Rightarrow> ViolationResult option" where
  "check_width img h w =
     (let aspect_ratio = (if w > 0 then real h / real w else 0) in
      if aspect_ratio > very_narrow_ratio then
        Some \<lparr>vtype = JStr ''Door Width'', severity = JStr ''Critical'',
              ada_code = JStr ''404.2.3'', confidence = JNum 0.70,
              detection_method = JStr ''rule_based_cv'',
              measurements = [(''aspect_ratio'', JNum (round_to aspect_ratio 2)),
                              (''estimated_width_inches'', JNum 28),
                              (''required_width_inches'', JNum 32)]\<rparr>
      else if aspect_ratio > narrow_door_ratio then
        Some \<lparr>vtype = JStr ''Door Width'', severity = JStr ''Critical'',
              ada_code = JStr ''404.2.3'', confidence = JNum 0.60,
              detection_method = JStr ''rule_based_cv'',
              measurements = [(''aspect_ratio'', JNum (round_to aspect_ratio 2)),
                              (''estimated_width_inches'', JNum 30),
                              (''required_width_inches'', JNum 32)]\<rparr>
      else None)"

definition check_threshold :: "region \<Rightarrow> nat \<Rightarrow> nat \<Rightarrow> ViolationResult option" where
  "check_threshold img h w =
     (let bottom_section = drop (nat \<lfloor>real h * 0.85\<rfloor>) (rows img (edges img));
          horizontal_edges =
            length (filter (\<lambda>row. real (length (filter (\<lambda>p. p > 0) row)) > real w * 0.3)
                      bottom_section);
          edge_density = (if length bottom_section > 0
                          then real horizontal_edges / real (length bottom_section) else 0)
      in if edge_density > 0.3 then
           Some \<lparr>vtype = JStr ''Door Threshold'', severity = JStr ''Moderate'',
                 ada_code = JStr ''404.2.5'',
                 confidence = JNum (min (0.55 + edge_density * 0.2) 0.75),
                 detection_method = JStr ''rule_based_cv'',
                 measurements = [(''edge_density'', JNum (round_to edge_density 2)),
                                 (''max_threshold_height_inches'', JNum 0.5)]\<rparr>
         else None)"

definition check_hardware :: "region \<Rightarrow> nat \<Rightarrow> nat \<Rightarrow> ViolationResult option" where
  "check_hardware img h w =
     (let min_area = real (w * h) * 0.002;
          max_area = real (w * h) * 0.05;
          hardware_contours =
            filter (\<lambda>(area, cw, ch).
                      min_area < area \<and> area < max_area \<and>
                      (if min cw ch > 0 then real (max cw ch) / real (min cw ch) else 0) < 3)
                   (contour_shapes img)
      in if length hardware_contours < 2 then
           Some \<lparr>vtype = JStr ''Door Hardware'', severity = JStr ''Minor'',
                 ada_code = JStr ''404.2.7'', confidence = JNum 0.50,
                 detection_method = JStr ''rule_based_cv'',
                 measurements = [(''hardware_features_detected'',
                                  JNum (real (length hardware_contours)))]\<rparr>
         else None)"

definition door_analyze :: "region \<Rightarrow> DetectionResult \<Rightarrow> ViolationResult list" where
  "door_analyze img detection =
     (if image_size img = 0 then []
      else found (check_width img (height img) (width img))
         @ found (check_threshold img (height img) (width img))
         @ found (check_hardware img (height img) (width img)))"

section \<open>Parking analyzer\<close>

definition blue_lower :: "nat \<times> nat \<times> nat" where "blue_lower = (90, 80, 50)"
definition blue_upper :: "nat \<times> nat \<times> nat" where "blue_upper = (135, 255, 255)"
definition white_lower :: "nat \<times> nat \<times> nat" where "white_lower = (0, 0, 180)"
definition white_upper :: "nat \<times> nat \<times> nat" where "white_upper = (180, 50, 255)"
definition min_blue_percentage :: real where "min_blue_percentage = 0.05"
definition min_white_percentage :: real where "min_white_percentage = 0.02"

definition in_range :: "nat \<times> nat \<times> nat \<Rightarrow> nat \<times> nat \<times> nat \<Rightarrow> nat \<times> nat \<times> nat \<Rightarrow> nat" where
  \<comment> \<open>one entry of \<^verbatim>\<open>cv2.inRange\<close>: 255 when every channel lies within its bounds, both
      bounds included, else 0\<close>
  "in_range px lo up =
     (case (px, lo, up) of ((a, b, c), (la, lb, lc), (ua, ub, uc)) \<Rightarrow>
        if la \<le> a \<and> a \<le> ua \<and> lb \<le> b \<and> b \<le> ub \<and> lc \<le> c \<and> c \<le> uc then 255 else 0)"

definition inRange :: "region \<Rightarrow> nat \<times> nat \<times> nat \<Rightarrow> nat \<times> nat \<times> nat \<Rightarrow> nat list list" where
  \<comment> \<open>\<^verbatim>\<open>cv2.inRange(hsv, lower, upper)\<close>\<close>
  "inRange img lo up = rows img (\<lambda>i j. in_range (hsv img i j) lo up)"

definition count_nonzero :: "nat list list \<Rightarrow> nat" where
  \<comment> \<open>\<^verbatim>\<open>np.sum(mask > 0)\<close>\<close>
  "count_nonzero m = length (filter (\<lambda>p. p > 0) (concat m))"

definition mask_size :: "nat list list \<Rightarrow> nat" where
  \<comment> \<open>\<^verbatim>\<open>mask.size\<close>\<close>
  "mask_size m = length (concat m)"

definition blue_percentage :: "region \<Rightarrow> real" where
  "blue_percentage img =
     (let blue_mask = inRange img blue_lower blue_upper
      in real (count_nonzero blue_mask) / real (mask_size blue_mask))"

definition white_percentage :: "region \<Rightarrow> real" where
  "white_percentage img =
     (let white_mask = inRange img white_lower white_upper
      in real (count_nonzero white_mask) / real (mask_size white_mask))"

definition check_signage :: "region \<Rightarrow> nat \<Rightarrow> nat \<Rightarrow> ViolationResult option" where
  "check_signage img h w =
     (let has_blue = (blue_percentage img \<ge> min_blue_percentage);
          has_white = (white_percentage img \<ge> min_white_percentage)
      in if \<not> has_blue then
           Some \<lparr>vtype = JStr ''Parking Signage'', severity = JStr ''Critical'',
                 ada_code = JStr ''502.6'', confidence = JNum 0.80,
                 detection_method = JStr ''rule_based_cv'',
                 measurements =
                   [(''blue_percentage'', JNum (round_to (blue_percentage img * 100) 1)),
                    (''white_percentage'', JNum (round_to (white_percentage img * 100) 1)),
                    (''required_blue_percentage'', JNum (min_blue_percentage * 100))]\<rparr>
         else if has_blue \<and> \<not> has_white then
           Some \<lparr>vtype = JStr ''Wheelchair Symbol'', severity = JStr ''Critical'',
                 ada_code = JStr ''502.6'', confidence = JNum 0.70,
                 detection_method = JStr ''rule_based_cv'',
                 measurements =
                   [(''blue_percentage'', JNum (round_to (blue_percentage img * 100) 1)),
                    (''white_percentage'', JNum (round_to (white_percentage img * 100) 1))]\<rparr>
         else None)"

definition where_rows :: "nat list list \<Rightarrow> nat list" where
  \<comment> \<open>\<^verbatim>\<open>np.where(mask > 0)[0]\<close>: the row index of every non-zero entry, row by row\<close>
  "where_rows m =
     concat (map (\<lambda>(i, row). replicate (length (filter (\<lambda>p. p > 0) row)) i)
                 (enumerate 0 m))"

definition blue_positions :: "region \<Rightarrow> nat list" where
  "blue_positions img = where_rows (inRange img blue_lower blue_upper)"

definition mean :: "real list \<Rightarrow> real" where
  \<comment> \<open>\<^verbatim>\<open>np.mean\<close>\<close>
  "mean xs = sum_list xs / real (length xs)"

definition check_sign_position :: "region \<Rightarrow> nat \<Rightarrow> nat \<Rightarrow> ViolationResult option" where
  "check_sign_position img h w =
     (if length (blue_positions img) > 0 then
        (let avg_y_position = mean (map real (blue_positions img));
             relative_position = avg_y_position / real h
         in if relative_position > 0.6 then
              Some \<lparr>vtype = JStr ''Sign Height'', severity = JStr ''Moderate'',
                    ada_code = JStr ''502.6'', confidence = JNum 0.60,
                    detection_method = JStr ''rule_based_cv'',
                    measurements =
                      [(''vertical_position_percentage'',
                        JNum (round_to (relative_position * 100) 0)),
                       (''required_height_inches'', JNum 60)]\<rparr>
            else None)
      else None)"

definition parking_analyze :: "region \<Rightarrow> DetectionResult \<Rightarrow> ViolationResult list" where
  "parking_analyze img detection =
     (if image_size img = 0 then []
      else found (check_signage img (height img) (width img))
         @ found (check_sign_position img (height img) (width img)))"

section \<open>Pathway analyzer\<close>

definition obstruction_objects :: "string list" where
  "obstruction_objects =
     [''chair'', ''couch'', ''bench'', ''potted_plant'', ''vase'',
      ''suitcase'', ''backpack'', ''handbag'', ''umbrella'',
      ''bicycle'', ''motorcycle'', ''fire_hydrant'']"

definition high_risk_objects :: "string list" where
  "high_risk_objects = [''chair'', ''couch'', ''bench'', ''bicycle'']"

definition relative_size :: "region \<Rightarrow> DetectionResult \<Rightarrow> real" where
  "relative_size img detection =
     (case bbox detection of (x, y, w, h) \<Rightarrow>
        if width img * height img > 0
        then real_of_int (w * h) / real (width img * height img) else 0)"

definition check_obstruction :: "region \<Rightarrow> DetectionResult \<Rightarrow> ViolationResult" where
  "check_obstruction img detection =
     (let object_name = class_name detection;
          rs = relative_size img detection;
          (sev, conf) = (if rs > 0.3 then (''Moderate'', 0.65)
                         else if rs > 0.5 then (''Critical'', 0.70)
                         else (''Moderate'', 0.60::real));
          conf' = (if lower object_name \<in> set high_risk_objects then conf + 0.05 else conf)
      in \<lparr>vtype = JStr ''Pathway Obstruction'', severity = JStr sev,
           ada_code = JStr ''403.5.1'', confidence = JNum (min conf' 0.75),
           detection_method = JStr ''rule_based_cv'',
           measurements = [(''object_type'', JStr object_name),
                           (''relative_size_percentage'', JNum (round_to (rs * 100) 1)),
                           (''required_clear_width_inches'', JNum 36),
                           (''max_protrusion_inches'', JNum 4)]\<rparr>)"

definition pathway_analyze :: "region \<Rightarrow> DetectionResult \<Rightarrow> ViolationResult list" where
  "pathway_analyze img detection =
     (if image_size img = 0 then []
      else if lower (class_name detection) \<notin> set obstruction_objects then []
      else [check_obstruction img detection])"

section \<open>Ramp analyzer\<close>

definition max_slope_degrees :: real where "max_slope_degrees = 5.0"
definition warning_slope_degrees :: real where "warning_slope_degrees = 4.0"

definition degrees :: "real \<Rightarrow> real" where
  \<comment> \<open>\<^verbatim>\<open>np.degrees\<close>\<close>
  "degrees x = x * 180 / pi"

definition line_angle :: "int \<times> int \<times> int \<times> int \<Rightarrow> real" where
  \<comment> \<open>\<^verbatim>\<open>abs(np.degrees(np.arctan((y2 - y1) / (x2 - x1))))\<close>\<close>
  "line_angle l =
     (case l of (x1, y1, x2, y2) \<Rightarrow>
        \<bar>degrees (arctan (real_of_int (y2 - y1) / real_of_int (x2 - x1)))\<bar>)"

definition slope_angles :: "(int \<times> int \<times> int \<times> int) list \<Rightarrow> real list" where
  \<comment> \<open>the loop of the slope check that collects \<^verbatim>\<open>angles\<close>\<close>
  "slope_angles ls =
     concat (map (\<lambda>l. case l of (x1, y1, x2, y2) \<Rightarrow>
                    if x2 - x1 \<noteq> 0
                    then (if 10 < line_angle l \<and> line_angle l < 80 then [line_angle l] else [])
                    else []) ls)"

definition check_slope :: "region \<Rightarrow> nat \<Rightarrow> nat \<Rightarrow> ViolationResult option" where
  "check_slope img h w =
     (case slope_lines img of
        None \<Rightarrow> None
      | Some ls \<Rightarrow>
          if length ls = 0 then None
          else
            (let angles = slope_angles ls in
             if length angles = 0 then None
             else
               (let steepest_angle = Max (set angles);
                    slope = \<lambda>sev conf.
                      Some \<lparr>vtype = JStr ''Ramp Slope'', severity = JStr sev,
                            ada_code = JStr ''405.2'', confidence = JNum conf,
                            detection_method = JStr ''rule_based_cv'',
                            measurements =
                              [(''detected_angle_degrees'', JNum (round_to steepest_angle 1)),
                               (''max_allowed_angle_degrees'', JNum 4.76),
                               (''max_allowed_ratio'', JStr ''1:12''),
                               (''max_allowed_percentage'', JNum 8.33)]\<rparr>
                in if steepest_angle > max_slope_degrees then slope ''Critical'' 0.60
                   else if steepest_angle > warning_slope_degrees then slope ''Moderate'' 0.55
                   else None)))"

definition check_handrails :: "region \<Rightarrow> nat \<Rightarrow> nat \<Rightarrow> ViolationResult option" where
  "check_handrails img h w =
     (case handrail_lines img of
        None \<Rightarrow>
          Some \<lparr>vtype = JStr ''Ramp Handrails'', severity = JStr ''Moderate'',
                ada_code = JStr ''405.8'', confidence = JNum 0.65,
                detection_method = JStr ''rule_based_cv'',
                measurements = [(''handrail_features_detected'', JNum 0),
                                (''required_handrails'', JNum 2)]\<rparr>
      | Some ls \<Rightarrow>
          (let avg_x = (\<lambda>l. case l of (x1, y1, x2, y2) \<Rightarrow> real_of_int (x1 + x2) / 2);
               left_lines = filter (\<lambda>l. avg_x l < real w * 0.3) ls;
               right_lines = filter (\<lambda>l. \<not> avg_x l < real w * 0.3 \<and> avg_x l > real w * 0.7) ls
           in if length left_lines = 0 \<or> length right_lines = 0 then
                Some \<lparr>vtype = JStr ''Ramp Handrails'', severity = JStr ''Moderate'',
                      ada_code = JStr ''405.8'', confidence = JNum 0.60,
                      detection_method = JStr ''rule_based_cv'',
                      measurements =
                        [(''left_handrail_features'', JNum (real (length left_lines))),
                         (''right_handrail_features'', JNum (real (length right_lines))),
                         (''required_handrails'', JNum 2)]\<rparr>
              else None))"

definition ramp_analyze :: "region \<Rightarrow> DetectionResult \<Rightarrow> ViolationResult list" where
  "ramp_analyze img detection =
     (if image_size img = 0 then []
      else found (check_slope img (height img) (width img))
         @ found (check_handrails img (height img) (width img)))"

section \<open>Signage analyzer\<close>

definition min_contrast_ratio :: real where "min_contrast_ratio = 3.0"
definition low_contrast_ratio :: real where "low_contrast_ratio = 2.5"
definition min_texture_stddev :: real where "min_texture_stddev = 15.0"

definition check_contrast :: "region \<Rightarrow> nat \<Rightarrow> nat \<Rightarrow> ViolationResult option" where
  "check_contrast img h w =
     (let l_channel = concat (rows img (lab_l img));
          max_luminance = Max (set l_channel);
          min_luminance = Min (set l_channel);
          l1 = real max_luminance / 255.0;
          l2 = real min_luminance / 255.0;
          contrast_ratio = (l1 + 0.05) / (l2 + 0.05);
          contrast = \<lambda>sev conf.
            Some \<lparr>vtype = JStr ''Sign Contrast'', severity = JStr sev,
                  ada_code = JStr ''703.5'', confidence = JNum conf,
                  detection_method = JStr ''rule_based_cv'',
                  measurements = [(''contrast_ratio'', JNum (round_to contrast_ratio 2)),
                                  (''min_required_ratio'', JNum 3.0),
                                  (''max_luminance'', JNum (real max_luminance)),
                                  (''min_luminance'', JNum (real min_luminance))]\<rparr>
      in if contrast_ratio < low_contrast_ratio then contrast ''Critical'' 0.70
         else if contrast_ratio < min_contrast_ratio then contrast ''Moderate'' 0.65
         else None)"

definition np_std :: "real list \<Rightarrow> real" where
  \<comment> \<open>\<^verbatim>\<open>np.std\<close>: the population standard deviation\<close>
  "np_std xs = sqrt (mean (map (\<lambda>x. (x - mean xs)\<^sup>2) xs))"

definition range_step :: "nat \<Rightarrow> nat \<Rightarrow> nat list" where
  \<comment> \<open>\<^verbatim>\<open>range(0, stop, step)\<close>\<close>
  "range_step stop step = filter (\<lambda>y. y mod step = 0) [0..<stop]"

definition texture_scores :: "region \<Rightarrow> nat \<Rightarrow> nat \<Rightarrow> real list" where
  \<comment> \<open>the standard deviation of every 20 by 20 patch; \<open>h - 20\<close> and \<open>w - 20\<close> stop at 0, and
      \<^verbatim>\<open>range\<close> is empty for a stop that is not positive\<close>
  "texture_scores img h w =
     (let patch_size = 20 in
      concat (map (\<lambda>y. map (\<lambda>x. np_std (concat (map (\<lambda>i. map (\<lambda>j. real (gray img i j))
                                                               [x..<x + patch_size])
                                                    [y..<y + patch_size])))
                           (range_step (w - patch_size) patch_size))
                  (range_step (h - patch_size) patch_size)))"

definition check_tactile_features :: "region \<Rightarrow> nat \<Rightarrow> nat \<Rightarrow> ViolationResult option" where
  "check_tactile_features img h w =
     (let scores = texture_scores img h w in
      if length scores = 0 then None
      else
        (let avg_texture = mean scores;
             max_texture = Max (set scores)
         in if avg_texture < min_texture_stddev \<and> max_texture < 25.0 then
              Some \<lparr>vtype = JStr ''Tactile Features'', severity = JStr ''Minor'',
                    ada_code = JStr ''703.2'', confidence = JNum 0.55,
                    detection_method = JStr ''rule_based_cv'',
                    measurements =
                      [(''average_texture_score'', JNum (round_to avg_texture 1)),
                       (''max_texture_score'', JNum (round_to max_texture 1)),
                       (''texture_threshold'', JNum min_texture_stddev),
                       (''min_character_height_inches'', JNum 0.625),
                       (''max_character_height_inches'', JNum 2.0)]\<rparr>
            else None))"

definition signage_analyze :: "region \<Rightarrow> DetectionResult \<Rightarrow> ViolationResult list" where
  "signage_analyze img detection =
     (if image_size img = 0 then []
      else found (check_contrast img (height img) (width img))
         @ found (check_tactile_features img (height img) (width img)))"

section \<open>Rule-based analyzer\<close>

definition door_objects :: "string list" where
  "door_objects = [''door'', ''entrance'']"
definition parking_objects :: "string list" where
  "parking_objects = [''car'', ''truck'', ''bus'', ''parking'']"
definition ramp_objects :: "string list" where
  "ramp_objects = [''ramp'', ''stairs'', ''steps'']"
definition sign_objects :: "string list" where
  "sign_objects = [''sign'', ''signage'', ''stop_sign'', ''street_sign'']"

definition analyze_detection :: "(DetectionResult \<Rightarrow> region option) \<Rightarrow> DetectionResult \<Rightarrow> ViolationResult list" where
  \<comment> \<open>\<^verbatim>\<open>RuleBasedAnalyzer.analyze_detection\<close>. \<open>get_crop\<close> is
      \<^verbatim>\<open>detection.get_crop(image)\<close> on the analysed image, \<open>None\<close> when it raises. The
      final conversion of each dictionary into a \<open>ViolationResult\<close> copies the fields;
      every key it reads is present, so its handler is never entered.\<close>
  "analyze_detection get_crop detection =
     (let object_type = lower (class_name detection) in
      case get_crop detection of
        None \<Rightarrow> []
      | Some cropped \<Rightarrow>
          if object_type \<in> set door_objects then door_analyze cropped detection
          else if object_type \<in> set parking_objects then parking_analyze cropped detection
          else if object_type \<in> set ramp_objects then ramp_analyze cropped detection
          else if object_type \<in> set sign_objects then signage_analyze cropped detection
          else pathway_analyze cropped detection)"

section \<open>Model-backed analyzer\<close>

subsection \<open>Python string operations\<close>

text \<open>
  A Python \<open>str\<close> is a \<open>string\<close>: the model covers text whose code points are below 256.
\<close>

definition norm_index :: "int \<Rightarrow> nat \<Rightarrow> nat" where
  \<comment> \<open>a slice bound: a negative one counts from the end, both are clipped to the length\<close>
  "norm_index i n = (if i < 0 then nat (max 0 (int n + i)) else min (nat i) n)"

definition py_slice :: "'a list \<Rightarrow> int \<Rightarrow> int \<Rightarrow> 'a list" where
  \<comment> \<open>\<^verbatim>\<open>xs[start:end]\<close>\<close>
  "py_slice xs start end =
     (let a = norm_index start (length xs); b = norm_index end (length xs)
      in take (b - a) (drop a xs))"

fun find_sub :: "'a list \<Rightarrow> 'a list \<Rightarrow> nat option" where
  \<comment> \<open>the least index at which \<open>sub\<close> occurs\<close>
  "find_sub sub [] = (if sub = [] then Some 0 else None)"
| "find_sub sub (c # cs) =
     (if take (length sub) (c # cs) = sub then Some 0
      else map_option Suc (find_sub sub cs))"

definition py_find :: "string \<Rightarrow> string \<Rightarrow> int \<Rightarrow> int" where
  \<comment> \<open>\<^verbatim>\<open>text.find(sub, start)\<close>, for a non-empty \<open>sub\<close>\<close>
  "py_find text sub start =
     (let a = norm_index start (length text)
      in case find_sub sub (drop a text) of None \<Rightarrow> - 1 | Some i \<Rightarrow> int (a + i))"

definition py_rfind :: "string \<Rightarrow> string \<Rightarrow> int" where
  \<comment> \<open>\<^verbatim>\<open>text.rfind(sub)\<close>, for a non-empty \<open>sub\<close>\<close>
  "py_rfind text sub =
     (case find_sub (rev sub) (rev text) of
        None \<Rightarrow> - 1
      | Some i \<Rightarrow> int (length text - i - length sub))"

definition contains :: "string \<Rightarrow> string \<Rightarrow> bool" where
  \<comment> \<open>\<^verbatim>\<open>sub in text\<close>\<close>
  "contains sub text = (find_sub sub text \<noteq> None)"

definition is_space :: "char \<Rightarrow> bool" where
  \<comment> \<open>\<^verbatim>\<open>str.isspace\<close> on one character\<close>
  "is_space c =
     (let n = (of_char c :: nat)
      in (9 \<le> n \<and> n \<le> 13) \<or> (28 \<le> n \<and> n \<le> 32) \<or> n = 133 \<or> n = 160)"

definition strip :: "string \<Rightarrow> string" where
  \<comment> \<open>\<^verbatim>\<open>str.strip()\<close>\<close>
  "strip s = rev (dropWhile is_space (rev (dropWhile is_space s)))"

subsection \<open>Extraction of the JSON payload\<close>

datatype py_error =
    AttributeError | TypeError | ValueError | CropError
  | JSONDecodeError \<comment> \<open>the text is not JSON\<close>
  | RecursionError \<comment> \<open>the text nests deeper than the decoder's recursion limit\<close>

definition parse_error :: "string \<Rightarrow> json" where
  "parse_error text =
     JObj [(''violations'', JArr []),
           (''overall_assessment'', JStr ''Parse error''),
           (''notes'', JStr (take 200 text))]"

definition json_candidate :: "string \<Rightarrow> string" where
  \<comment> \<open>\<^verbatim>\<open>json_text\<close> of \<^verbatim>\<open>_extract_json\<close>: what is decoded once the whole text has failed\<close>
  "json_candidate text =
     (if contains ''```json'' text then
        (let start = py_find text ''```json'' 0 + 7;
             end = py_find text ''```'' start
         in strip (py_slice text start end))
      else if contains ''```'' text then
        (let start = py_find text ''```'' 0 + 3;
             end = py_find text ''```'' start
         in strip (py_slice text start end))
      else
        (let start = py_find text ''{'' 0;
             end = py_rfind text ''}'' + 1
         in if start \<noteq> - 1 \<and> end \<noteq> 0 then py_slice text start end else text))"

definition extract_json :: "(string \<Rightarrow> py_error + json) \<Rightarrow> string \<Rightarrow> py_error + json" where
  \<comment> \<open>\<open>loads\<close> is \<^verbatim>\<open>json.loads\<close>. Only \<^verbatim>\<open>JSONDecodeError\<close> is handled; any other
      exception of the decoder leaves \<^verbatim>\<open>_extract_json\<close>.\<close>
  "extract_json loads text =
     (case loads text of
        Inr j \<Rightarrow> Inr j
      | Inl e \<Rightarrow>
          if e \<noteq> JSONDecodeError then Inl e
          else
            (case loads (json_candidate text) of
               Inr j \<Rightarrow> Inr j
             | Inl e' \<Rightarrow> if e' \<noteq> JSONDecodeError then Inl e' else Inr (parse_error text)))"

subsection \<open>A JSON decoder\<close>

text \<open>
  \<open>json_loads\<close> decodes the JSON grammar as \<^verbatim>\<open>json.loads\<close> does, but for \<^verbatim>\<open>\u\<close>
  escapes and Python's extensions \<^verbatim>\<open>NaN\<close> and \<^verbatim>\<open>Infinity\<close>, which it rejects. The
  recursion on nested values is bounded by the length of the text, and it has no recursion
  limit: it never fails with \<open>RecursionError\<close>. It serves to run \<open>extract_json\<close> on
  concrete texts; the theorems on \<open>extract_json\<close> hold for every decoder.
\<close>

definition is_ws :: "char \<Rightarrow> bool" where
  "is_ws c = (c = CHR '' '' \<or> c = CHR 0x09 \<or> c = CHR 0x0A \<or> c = CHR 0x0D)"

definition skip_ws :: "string \<Rightarrow> string" where
  "skip_ws s = dropWhile is_ws s"

definition is_digit :: "char \<Rightarrow> bool" where
  "is_digit c = (let n = (of_char c :: nat) in 48 \<le> n \<and> n \<le> 57)"

definition digits_value :: "string \<Rightarrow> nat" where
  "digits_value ds = foldl (\<lambda>acc c. 10 * acc + (of_char c - 48)) 0 ds"

definition parse_number :: "string \<Rightarrow> (real \<times> string) option" where
  "parse_number s =
     (let (neg, s1) = (case s of c # r \<Rightarrow> if c = CHR ''-'' then (True, r) else (False, s)
                               | [] \<Rightarrow> (False, s));
          ip = takeWhile is_digit s1;
          s2 = dropWhile is_digit s1
      in if ip = [] \<or> (length ip > 1 \<and> hd ip = CHR ''0'') then None
         else
           (let (fp, s3) =
                  (case s2 of
                     c # r \<Rightarrow> if c = CHR ''.'' \<and> takeWhile is_digit r \<noteq> []
                              then (takeWhile is_digit r, dropWhile is_digit r) else ([], s2)
                   | [] \<Rightarrow> ([], s2));
                (ex, s4) =
                  (case s3 of
                     c # r \<Rightarrow>
                       if c = CHR ''e'' \<or> c = CHR ''E'' then
                         (let (eneg, r1) =
                                (case r of d # r' \<Rightarrow> if d = CHR ''-'' then (True, r')
                                                       else if d = CHR ''+'' then (False, r')
                                                       else (False, r)
                                         | [] \<Rightarrow> (False, r))
                          in if takeWhile is_digit r1 \<noteq> []
                             then ((if eneg then - 1 else 1) * int (digits_value (takeWhile is_digit r1)),
                                   dropWhile is_digit r1)
                             else (0, s3))
                       else (0, s3)
                   | [] \<Rightarrow> (0, s3));
                m = real (digits_value ip) + real (digits_value fp) / 10 ^ length fp;
                x = (if ex \<ge> 0 then m * 10 ^ nat ex else m / 10 ^ nat (- ex))
            in Some (if neg then - x else x, s4)))"

definition unescape :: "char \<Rightarrow> char option" where
  "unescape e =
     (if e = CHR 0x22 then Some (CHR 0x22)
      else if e = CHR 0x5C then Some (CHR 0x5C)
      else if e = CHR ''/'' then Some (CHR ''/'')
      else if e = CHR ''b'' then Some (CHR 0x08)
      else if e = CHR ''f'' then Some (CHR 0x0C)
      else if e = CHR ''n'' then Some (CHR 0x0A)
      else if e = CHR ''r'' then Some (CHR 0x0D)
      else if e = CHR ''t'' then Some (CHR 0x09)
      else None)"

fun parse_string :: "string \<Rightarrow> (string \<times> string) option" where
  \<comment> \<open>the text after an opening quote, up to the closing one\<close>
  "parse_string [] = None"
| "parse_string [c] = (if c = CHR 0x22 then Some ([], []) else None)"
| "parse_string (c # e # r) =
     (if c = CHR 0x22 then Some ([], e # r)
      else if c = CHR 0x5C then
        (case unescape e of
           None \<Rightarrow> None
         | Some ch \<Rightarrow> map_option (\<lambda>(str, t). (ch # str, t)) (parse_string r))
      else if (of_char c :: nat) < 32 then None
      else map_option (\<lambda>(str, t). (c # str, t)) (parse_string (e # r)))"

definition dict_cons :: "string \<Rightarrow> json \<Rightarrow> (string \<times> json) list \<Rightarrow> (string \<times> json) list" where
  \<comment> \<open>a dictionary from its first member and the dictionary of the later ones: a key that
      comes again keeps its first place and takes its last value\<close>
  "dict_cons k v kvs =
     (k, case map_of kvs k of None \<Rightarrow> v | Some v' \<Rightarrow> v') # filter (\<lambda>(k', _). k' \<noteq> k) kvs"

fun parse_value :: "nat \<Rightarrow> string \<Rightarrow> (json \<times> string) option"
  and parse_elements :: "nat \<Rightarrow> string \<Rightarrow> (json list \<times> string) option"
  and parse_members :: "nat \<Rightarrow> string \<Rightarrow> ((string \<times> json) list \<times> string) option"
where
  "parse_value 0 s = None"
| "parse_value (Suc n) s =
     (case s of
        [] \<Rightarrow> None
      | c # r \<Rightarrow>
          if c = CHR ''{'' then
            (case skip_ws r of
               [] \<Rightarrow> None
             | d # r' \<Rightarrow>
                 if d = CHR ''}'' then Some (JObj [], r')
                 else map_option (\<lambda>(kvs, t). (JObj kvs, t)) (parse_members n (d # r')))
          else if c = CHR ''['' then
            (case skip_ws r of
               [] \<Rightarrow> None
             | d # r' \<Rightarrow>
                 if d = CHR '']'' then Some (JArr [], r')
                 else map_option (\<lambda>(vs, t). (JArr vs, t)) (parse_elements n (d # r')))
          else if c = CHR 0x22 then map_option (\<lambda>(str, t). (JStr str, t)) (parse_string r)
          else if take 4 s = ''true'' then Some (JBool True, drop 4 s)
          else if take 5 s = ''false'' then Some (JBool False, drop 5 s)
          else if take 4 s = ''null'' then Some (JNull, drop 4 s)
          else map_option (\<lambda>(x, t). (JNum x, t)) (parse_number s))"
| "parse_elements 0 s = None"
| "parse_elements (Suc n) s =
     (case parse_value n s of
        None \<Rightarrow> None
      | Some (v, t) \<Rightarrow>
          (case skip_ws t of
             [] \<Rightarrow> None
           | c # r \<Rightarrow>
               if c = CHR '']'' then Some ([v], r)
               else if c = CHR '','' then
                 map_option (\<lambda>(vs, u). (v # vs, u)) (parse_elements n (skip_ws r))
               else None))"
| "parse_members 0 s = None"
| "parse_members (Suc n) s =
     (case s of
        [] \<Rightarrow> None
      | q # r0 \<Rightarrow>
          if q \<noteq> CHR 0x22 then None
          else
            (case parse_string r0 of
               None \<Rightarrow> None
             | Some (k, t) \<Rightarrow>
                 (case skip_ws t of
                    [] \<Rightarrow> None
                  | c # r \<Rightarrow>
                      if c \<noteq> CHR '':'' then None
                      else
                        (case parse_value n (skip_ws r) of
                           None \<Rightarrow> None
                         | Some (v, u) \<Rightarrow>
                             (case skip_ws u of
                                [] \<Rightarrow> None
                              | d # r' \<Rightarrow>
                                  if d = CHR ''}'' then Some ([(k, v)], r')
                                  else if d = CHR '','' then
                                    map_option (\<lambda>(kvs, x). (dict_cons k v kvs, x))
                                      (parse_members n (skip_ws r'))
                                  else None)))))"

definition json_loads :: "string \<Rightarrow> py_error + json" where
  "json_loads s =
     (case parse_value (Suc (length s)) (skip_ws s) of
        None \<Rightarrow> Inl JSONDecodeError
      | Some (v, t) \<Rightarrow> if skip_ws t = [] then Inr v else Inl JSONDecodeError)"

text \<open>
  The decoder of the interpreter recurses once for each array it enters and raises
  \<open>RecursionError\<close> past the recursion limit. \<open>json_loads_limited limit\<close> has this for
  the texts that open more than \<open>limit\<close> arrays before anything else, and is
  \<open>json_loads\<close> on every other text.
\<close>

definition json_loads_limited :: "nat \<Rightarrow> string \<Rightarrow> py_error + json" where
  "json_loads_limited limit s =
     (if limit < length (takeWhile (\<lambda>c. c = CHR ''['') (skip_ws s)) then Inl RecursionError
      else json_loads s)"

subsection \<open>From the response to violation records\<close>

datatype api_reply =
    EncodeFailed \<comment> \<open>\<^verbatim>\<open>cv2.imencode\<close> reports failure\<close>
  | ApiError string \<comment> \<open>the request raises, with this message\<close>
  | ApiText string \<comment> \<open>\<^verbatim>\<open>message.content[0].text\<close>\<close>

definition exception_text :: "py_error \<Rightarrow> string" where
  \<comment> \<open>\<^verbatim>\<open>str(e)\<close> of a caught exception, given here by the name of its class\<close>
  "exception_text e =
     (case e of
        AttributeError \<Rightarrow> ''AttributeError'' | TypeError \<Rightarrow> ''TypeError''
      | ValueError \<Rightarrow> ''ValueError'' | CropError \<Rightarrow> ''CropError''
      | JSONDecodeError \<Rightarrow> ''JSONDecodeError'' | RecursionError \<Rightarrow> ''RecursionError'')"

definition analysis_error :: "string \<Rightarrow> json" where
  "analysis_error notes =
     JObj [(''violations'', JArr []),
           (''overall_assessment'', JStr ''Error during analysis''),
           (''notes'', JStr notes)]"

definition claude_analyze :: "(string \<Rightarrow> py_error + json) \<Rightarrow> api_reply \<Rightarrow> py_error + json" where
  \<comment> \<open>the image is encoded before the \<^verbatim>\<open>try\<close>; the request and the extraction are
      inside it, and its handler catches every exception\<close>
  "claude_analyze loads reply =
     (case reply of
        EncodeFailed \<Rightarrow> Inl ValueError
      | ApiError e \<Rightarrow> Inr (analysis_error e)
      | ApiText response_text \<Rightarrow>
          (case extract_json loads response_text of
             Inr j \<Rightarrow> Inr j
           | Inl e \<Rightarrow> Inr (analysis_error (exception_text e))))"

definition mock_analyze :: "string \<Rightarrow> json" where
  "mock_analyze object_name =
     (if object_name \<in> set [''door'', ''entrance''] then
        JObj [(''violations'',
               JArr [JObj [(''type'', JStr ''Door Width''), (''severity'', JStr ''Critical''),
                           (''ada_code'', JStr ''404.2.3''), (''confidence'', JNum 0.7)]]),
              (''overall_assessment'', JStr ''Potential door width violation''),
              (''notes'', JStr ''Mock analysis - requires verification'')]
      else if object_name \<in> set [''car'', ''truck'', ''parking''] then
        JObj [(''violations'',
               JArr [JObj [(''type'', JStr ''Signage''), (''severity'', JStr ''Critical''),
                           (''ada_code'', JStr ''502.6''), (''confidence'', JNum 0.8)]]),
              (''overall_assessment'', JStr ''Missing parking signage''),
              (''notes'', JStr ''Mock analysis'')]
      else if object_name \<in> set [''chair'', ''couch'', ''bench'', ''potted_plant''] then
        JObj [(''violations'',
               JArr [JObj [(''type'', JStr ''Obstruction''), (''severity'', JStr ''Moderate''),
                           (''ada_code'', JStr ''403.5.1''), (''confidence'', JNum 0.6)]]),
              (''overall_assessment'', JStr ''Potential pathway obstruction''),
              (''notes'', JStr ''Mock analysis'')]
      else
        JObj [(''violations'', JArr []),
              (''overall_assessment'', JStr ''No obvious violations in this view''),
              (''notes'', JStr ''Mock analysis'')])"

definition parse_violation :: "json \<Rightarrow> ViolationResult list" where
  \<comment> \<open>the body of the loop of \<^verbatim>\<open>_parse_response\<close>: an entry that is no dictionary has
      no \<^verbatim>\<open>get\<close>, the handler drops it\<close>
  "parse_violation v_dict =
     (case v_dict of
        JObj d \<Rightarrow>
          [\<lparr>vtype = dict_get d ''type'' (JStr ''Unknown''),
            severity = dict_get d ''severity'' (JStr ''Minor''),
            ada_code = dict_get d ''ada_code'' (JStr ''N/A''),
            confidence = dict_get d ''confidence'' (JNum 0.5),
            detection_method = JStr ''claude_api'',
            measurements = []\<rparr>]
      | _ \<Rightarrow> [])"

definition parse_response :: "json \<Rightarrow> py_error + ViolationResult list" where
  \<comment> \<open>a response that is no dictionary has no \<^verbatim>\<open>get\<close>; iterating a string gives its
      characters and iterating a dictionary its keys, all of them dropped by the handler;
      null, a boolean or a number cannot be iterated\<close>
  "parse_response response =
     (case response of
        JObj r \<Rightarrow>
          (case dict_get r ''violations'' (JArr []) of
             JArr violations_data \<Rightarrow> Inr (concat (map parse_violation violations_data))
           | JStr _ \<Rightarrow> Inr []
           | JObj _ \<Rightarrow> Inr []
           | _ \<Rightarrow> Inl TypeError)
      | _ \<Rightarrow> Inl AttributeError)"

definition claude_analyze_detection ::
  "bool \<Rightarrow> (string \<Rightarrow> py_error + json) \<Rightarrow> (DetectionResult \<Rightarrow> api_reply) \<Rightarrow>
   (DetectionResult \<Rightarrow> region option) \<Rightarrow> DetectionResult \<Rightarrow> py_error + ViolationResult list" where
  \<comment> \<open>\<^verbatim>\<open>ClaudeAPIAnalyzer.analyze_detection\<close>; \<open>api\<close> is the outcome of the request for
      the crop of a detection. The prompt text has no part in the result.\<close>
  "claude_analyze_detection use_mock loads api get_crop detection =
     (case get_crop detection of
        None \<Rightarrow> Inl CropError
      | Some cropped \<Rightarrow>
          if image_size cropped = 0 then Inr []
          else if use_mock then parse_response (mock_analyze (class_name detection))
          else
            (case claude_analyze loads (api detection) of
               Inl e \<Rightarrow> Inl e
             | Inr response \<Rightarrow> parse_response response))"

section \<open>Aggregator\<close>

record detection_entry =
  object :: string
  entry_bbox :: "int list"
  violations :: "ViolationResult list"
  analyzer_type :: string
  detection_index :: nat

fun str_nat :: "nat \<Rightarrow> string" where
  \<comment> \<open>\<^verbatim>\<open>str(i)\<close>: the decimal digits\<close>
  "str_nat n =
     (if n < 10 then [char_of (48 + n)]
      else str_nat (n div 10) @ [char_of (48 + n mod 10)])"

declare str_nat.simps [simp del]

definition detection_key :: "nat \<Rightarrow> string" where
  "detection_key i = ''detection_'' @ str_nat i"

fun dict_set :: "('k \<times> 'v) list \<Rightarrow> 'k \<Rightarrow> 'v \<Rightarrow> ('k \<times> 'v) list" where
  \<comment> \<open>\<^verbatim>\<open>d[k] = v\<close>: a key already present keeps its place\<close>
  "dict_set [] k v = [(k, v)]"
| "dict_set ((k', v') # d) k v = (if k' = k then (k, v) # d else (k', v') # dict_set d k v)"

definition make_entry ::
  "ViolationResult list \<Rightarrow> string \<Rightarrow> nat \<Rightarrow> DetectionResult \<Rightarrow> detection_entry" where
  "make_entry found_violations name i detection =
     \<lparr>object = class_name detection,
      entry_bbox = (case bbox detection of (x, y, w, h) \<Rightarrow> [x, y, w, h]),
      violations = found_violations,
      analyzer_type = name,
      detection_index = i\<rparr>"

fun analyze_loop ::
  "(DetectionResult \<Rightarrow> py_error + ViolationResult list) \<Rightarrow> string \<Rightarrow> nat \<Rightarrow>
   DetectionResult list \<Rightarrow> (string \<times> detection_entry) list \<Rightarrow>
   py_error + (string \<times> detection_entry) list" where
  \<comment> \<open>the loop over \<^verbatim>\<open>enumerate(detections)\<close> from index \<open>i\<close> on. The call of
      \<^verbatim>\<open>analyze_detection\<close> has no handler: an exception it raises ends the loop and
      leaves the method, and no dictionary is returned.\<close>
  "analyze_loop analyze name i [] results = Inr results"
| "analyze_loop analyze name i (detection # rest) results =
     (case analyze detection of
        Inl e \<Rightarrow> Inl e
      | Inr found_violations \<Rightarrow>
          analyze_loop analyze name (Suc i) rest
            (dict_set results (detection_key i) (make_entry found_violations name i detection)))"

definition analyze_all_detections ::
  "(DetectionResult \<Rightarrow> py_error + ViolationResult list) \<Rightarrow> string \<Rightarrow> DetectionResult list \<Rightarrow>
   py_error + (string \<times> detection_entry) list" where
  \<comment> \<open>\<^verbatim>\<open>BaseAnalyzer.analyze_all_detections\<close>; \<open>analyze\<close> is the
      \<^verbatim>\<open>analyze_detection\<close> of the analyzer on the analysed image, \<open>Inl\<close> when it
      raises, and \<open>name\<close> is \<^verbatim>\<open>self.name\<close>. The returned dictionary is modelled; the
      printed lines and the counter \<^verbatim>\<open>analysis_count\<close>, which the dictionary does not
      depend on, are left out.\<close>
  "analyze_all_detections analyze name detections = analyze_loop analyze name 0 detections []"

section \<open>Inputs and predicates of the theorems\<close>

definition blank_region :: "nat \<Rightarrow> nat \<Rightarrow> region" where
  \<comment> \<open>a region of the given shape on which OpenCV reports nothing: every array entry 0,
      no contour, no line\<close>
  "blank_region h w =
     \<lparr>height = h, width = w, hsv = (\<lambda>i j. (0, 0, 0)), lab_l = (\<lambda>i j. 0), gray = (\<lambda>i j. 0),
      edges = (\<lambda>i j. 0), contour_shapes = [], slope_lines = None, handrail_lines = None\<rparr>"

definition some_detection :: "string \<Rightarrow> int \<times> int \<times> int \<times> int \<Rightarrow> DetectionResult" where
  "some_detection name box =
     \<lparr>class_id = 0, class_name = name, det_confidence = 0.9, bbox = box,
      center = (case box of (x, y, w, h) \<Rightarrow> (x + w div 2, y + h div 2))\<rparr>"

definition hsv_region :: "nat \<Rightarrow> nat \<Rightarrow> (nat \<Rightarrow> nat \<Rightarrow> nat \<times> nat \<times> nat) \<Rightarrow> region" where
  \<comment> \<open>a blank region with the given HSV array\<close>
  "hsv_region h w f = (blank_region h w)\<lparr>hsv := f\<rparr>"

definition low_sign :: region where
  \<comment> \<open>3 rows of 7 pixels, one blue pixel in the bottom row\<close>
  "low_sign = hsv_region 3 7 (\<lambda>i j. if i = 2 \<and> j = 0 then (100, 200, 200) else (0, 0, 0))"

definition lines_region :: "nat \<Rightarrow> nat \<Rightarrow> (int \<times> int \<times> int \<times> int) list \<Rightarrow> region" where
  \<comment> \<open>a blank region on which line detection reports the given segments\<close>
  "lines_region h w ls = (blank_region h w)\<lparr>slope_lines := Some ls, handrail_lines := Some ls\<rparr>"

definition valid_record :: "ViolationResult \<Rightarrow> bool" where
  \<comment> \<open>the invariant on records: severity is one of the three names, confidence is a
      number in the closed interval from 0 to 1\<close>
  "valid_record v =
     (severity v \<in> {JStr ''Critical'', JStr ''Moderate'', JStr ''Minor''}
      \<and> (case confidence v of JNum c \<Rightarrow> 0 \<le> c \<and> c \<le> 1 | _ \<Rightarrow> False))"

definition mock_violation :: "string \<Rightarrow> string \<Rightarrow> string \<Rightarrow> real \<Rightarrow> ViolationResult" where
  \<comment> \<open>the record built from an entry of a mock response\<close>
  "mock_violation t s code c =
     \<lparr>vtype = JStr t, severity = JStr s, ada_code = JStr code, confidence = JNum c,
      detection_method = JStr ''claude_api'', measurements = []\<rparr>"

definition high_response :: string where
  \<comment> \<open>a response text whose entry has a severity outside the three names and a
      confidence above 1\<close>
  \<open>high_response =
     ''{"violations": [{"type": "Door Width", "severity": "High", "confidence": 1.5}]}''\<close>

definition fenced_response :: string where
  \<comment> \<open>a response that wraps its payload in a fence\<close>
  \<open>fenced_response = ''Result: ```json {"violations": []} ``` done''\<close>

definition occurs_at :: "'a list \<Rightarrow> 'a list \<Rightarrow> nat \<Rightarrow> bool" where
  \<comment> \<open>\<open>sub\<close> stands in \<open>xs\<close> at index \<open>n\<close>\<close>
  "occurs_at sub xs n = (n + length sub \<le> length xs \<and> take (length sub) (drop n xs) = sub)"

definition first_at :: "'a list \<Rightarrow> 'a list \<Rightarrow> nat \<Rightarrow> bool" where
  \<comment> \<open>the first place where \<open>sub\<close> stands in \<open>xs\<close> is index \<open>n\<close>\<close>
  "first_at sub xs n = (occurs_at sub xs n \<and> list_all (\<lambda>m. \<not> occurs_at sub xs m) [0..<n])"

definition occurs :: "'a list \<Rightarrow> 'a list \<Rightarrow> bool" where
  \<comment> \<open>\<open>sub\<close> stands somewhere in \<open>xs\<close>\<close>
  "occurs sub xs = list_ex (occurs_at sub xs) [0..<Suc (length xs)]"

section \<open>Empty regions\<close>

lemma in_found: "v \<in> set (found r) \<longleftrightarrow> r = Some v"
  by (auto simp: found_def split: option.splits)

text \<open>
  C2. Each of the five category analyzers returns the empty list on a region of height 0 or
  width 0. Such a region has \<open>image_size\<close> 0, and every analyzer tests that before any
  other step, so no OpenCV call and no division is reached.
\<close>

theorem empty_region_no_violations:
  assumes "height img = 0 \<or> width img = 0"
  shows "image_size img = 0
       \<and> door_analyze img detection = []
       \<and> parking_analyze img detection = []
       \<and> pathway_analyze img detection = []
       \<and> ramp_analyze img detection = []
       \<and> signage_analyze img detection = []"
proof -
  from assms have "image_size img = 0" by (auto simp: image_size_def)
  then show ?thesis
    by (simp add: door_analyze_def parking_analyze_def pathway_analyze_def ramp_analyze_def
        signage_analyze_def)
qed

theorem empty_region_no_violations_witness:
  "door_analyze (blank_region 0 5) (some_detection ''door'' (0, 0, 5, 0)) = []
   \<and> parking_analyze (blank_region 5 0) (some_detection ''car'' (0, 0, 0, 5)) = []
   \<and> pathway_analyze (blank_region 0 0) (some_detection ''chair'' (0, 0, 0, 0)) = []
   \<and> ramp_analyze (blank_region 0 5) (some_detection ''ramp'' (0, 0, 5, 0)) = []
   \<and> signage_analyze (blank_region 5 0) (some_detection ''sign'' (0, 0, 0, 5)) = []"
  using empty_region_no_violations[of "blank_region 0 5" "some_detection ''door'' (0, 0, 5, 0)"]
        empty_region_no_violations[of "blank_region 5 0" "some_detection ''car'' (0, 0, 0, 5)"]
        empty_region_no_violations[of "blank_region 0 0" "some_detection ''chair'' (0, 0, 0, 0)"]
        empty_region_no_violations[of "blank_region 0 5" "some_detection ''ramp'' (0, 0, 5, 0)"]
        empty_region_no_violations[of "blank_region 5 0" "some_detection ''sign'' (0, 0, 0, 5)"]
  by (simp add: blank_region_def)

section \<open>Door width\<close>

lemma check_width_very_narrow:
  assumes "0 < w" and "real h / real w > 3"
  shows "\<exists>v. check_width img h w = Some v \<and> vtype v = JStr ''Door Width''
             \<and> severity v = JStr ''Critical''"
  using assms by (simp add: check_width_def very_narrow_ratio_def Let_def)

lemma check_width_acceptable:
  assumes "real h / real w \<le> 5/2"
  shows "check_width img h w = None"
  using assms by (auto simp: check_width_def very_narrow_ratio_def narrow_door_ratio_def Let_def)

lemma check_threshold_vtype:
  "check_threshold img h w = Some v \<Longrightarrow> vtype v = JStr ''Door Threshold''"
  by (auto simp: check_threshold_def Let_def split: if_splits)

lemma check_hardware_vtype:
  "check_hardware img h w = Some v \<Longrightarrow> vtype v = JStr ''Door Hardware''"
  by (auto simp: check_hardware_def Let_def split: if_splits)

text \<open>
  C6. On a non-empty region whose height divided by its width exceeds 3.0, the width check
  returns a "Door Width" violation of severity "Critical", and the door analyzer's list
  holds it. When the quotient is at most 2.5 the width check returns nothing and no entry
  of the door analyzer's list has type "Door Width".
\<close>

theorem door_width_by_aspect_ratio:
  assumes "image_size img \<noteq> 0"
  shows "(real (height img) / real (width img) > 3.0 \<longrightarrow>
            (\<exists>v. check_width img (height img) (width img) = Some v
                 \<and> v \<in> set (door_analyze img detection)
                 \<and> vtype v = JStr ''Door Width'' \<and> severity v = JStr ''Critical''))
       \<and> (real (height img) / real (width img) \<le> 2.5 \<longrightarrow>
            check_width img (height img) (width img) = None
          \<and> (\<forall>v \<in> set (door_analyze img detection). vtype v \<noteq> JStr ''Door Width''))"
proof (intro conjI impI)
  assume r: "real (height img) / real (width img) > 3.0"
  from assms have w: "0 < width img" by (simp add: image_size_def)
  from check_width_very_narrow[OF w, of "height img" img] r
  obtain v where v: "check_width img (height img) (width img) = Some v"
    "vtype v = JStr ''Door Width''" "severity v = JStr ''Critical''" by auto
  from v(1) assms have "v \<in> set (door_analyze img detection)"
    by (simp add: door_analyze_def in_found)
  with v show "\<exists>v. check_width img (height img) (width img) = Some v
                 \<and> v \<in> set (door_analyze img detection)
                 \<and> vtype v = JStr ''Door Width'' \<and> severity v = JStr ''Critical''" by blast
next
  assume r: "real (height img) / real (width img) \<le> 2.5"
  then show n: "check_width img (height img) (width img) = None"
    by (intro check_width_acceptable) simp
  show "\<forall>v \<in> set (door_analyze img detection). vtype v \<noteq> JStr ''Door Width''"
    using n by (auto simp: door_analyze_def in_found dest!: check_threshold_vtype check_hardware_vtype)
qed

theorem door_width_by_aspect_ratio_witness:
  "(\<exists>v. v \<in> set (door_analyze (blank_region 4 1) (some_detection ''door'' (0, 0, 1, 4)))
        \<and> vtype v = JStr ''Door Width'' \<and> severity v = JStr ''Critical'')
   \<and> filter (\<lambda>v. vtype v = JStr ''Door Width'')
        (door_analyze (blank_region 2 1) (some_detection ''door'' (0, 0, 1, 2))) = []"
  using door_width_by_aspect_ratio[of "blank_region 4 1" "some_detection ''door'' (0, 0, 1, 4)"]
        door_width_by_aspect_ratio[of "blank_region 2 1" "some_detection ''door'' (0, 0, 1, 2)"]
  by (simp add: blank_region_def image_size_def filter_empty_conv) blast

section \<open>Parking signage\<close>

lemma check_signage_no_blue:
  assumes "blue_percentage img < min_blue_percentage"
  shows "\<exists>v. check_signage img h w = Some v \<and> vtype v = JStr ''Parking Signage''
            \<and> severity v = JStr ''Critical''"
  using assms by (simp add: check_signage_def Let_def)

lemma check_signage_no_white:
  assumes "blue_percentage img \<ge> min_blue_percentage"
    and "white_percentage img < min_white_percentage"
  shows "\<exists>v. check_signage img h w = Some v \<and> vtype v = JStr ''Wheelchair Symbol''
            \<and> severity v = JStr ''Critical''"
  using assms by (simp add: check_signage_def Let_def)

lemma check_signage_both:
  assumes "blue_percentage img \<ge> min_blue_percentage"
    and "white_percentage img \<ge> min_white_percentage"
  shows "check_signage img h w = None"
  using assms by (simp add: check_signage_def Let_def)

lemma check_signage_parking_iff:
  "(\<exists>v. check_signage img h w = Some v \<and> vtype v = JStr ''Parking Signage'')
     \<longleftrightarrow> blue_percentage img < min_blue_percentage"
  by (auto simp: check_signage_def Let_def)

lemma check_sign_position_vtype:
  "check_sign_position img h w = Some v \<Longrightarrow> vtype v = JStr ''Sign Height''"
  by (auto simp: check_sign_position_def Let_def split: if_splits)

lemma no_blue_pixels:
  assumes "count_nonzero (inRange img blue_lower blue_upper) = 0"
  shows "blue_percentage img < min_blue_percentage"
  using assms by (simp add: blue_percentage_def Let_def min_blue_percentage_def)

text \<open>
  C7. On a non-empty region the signage check returns a "Parking Signage" violation exactly
  when the fraction of pixels in the blue range is below the blue threshold, and then it is
  Critical and in the analyzer's list; a region with no blue pixel is such a region. When the
  blue fraction meets its threshold and the white fraction is below its own, the check
  returns a Critical "Wheelchair Symbol" violation. When both fractions meet their
  thresholds the check returns nothing, and the analyzer's list has no entry of either type.
\<close>

theorem parking_signage_by_colour:
  assumes "image_size img \<noteq> 0"
  shows "((\<exists>v. check_signage img (height img) (width img) = Some v
              \<and> vtype v = JStr ''Parking Signage'')
            \<longleftrightarrow> blue_percentage img < min_blue_percentage)
       \<and> (blue_percentage img < min_blue_percentage \<longrightarrow>
            (\<exists>v. check_signage img (height img) (width img) = Some v
                 \<and> v \<in> set (parking_analyze img detection)
                 \<and> vtype v = JStr ''Parking Signage'' \<and> severity v = JStr ''Critical''))
       \<and> (count_nonzero (inRange img blue_lower blue_upper) = 0 \<longrightarrow>
            blue_percentage img < min_blue_percentage)
       \<and> (blue_percentage img \<ge> min_blue_percentage
            \<and> white_percentage img < min_white_percentage \<longrightarrow>
            (\<exists>v. check_signage img (height img) (width img) = Some v
                 \<and> v \<in> set (parking_analyze img detection)
                 \<and> vtype v = JStr ''Wheelchair Symbol'' \<and> severity v = JStr ''Critical''))
       \<and> (blue_percentage img \<ge> min_blue_percentage
            \<and> white_percentage img \<ge> min_white_percentage \<longrightarrow>
            check_signage img (height img) (width img) = None
            \<and> (\<forall>v \<in> set (parking_analyze img detection).
                  vtype v \<noteq> JStr ''Parking Signage'' \<and> vtype v \<noteq> JStr ''Wheelchair Symbol''))"
proof (intro conjI impI)
  show "(\<exists>v. check_signage img (height img) (width img) = Some v
              \<and> vtype v = JStr ''Parking Signage'')
            \<longleftrightarrow> blue_percentage img < min_blue_percentage"
    by (rule check_signage_parking_iff)
next
  assume "blue_percentage img < min_blue_percentage"
  from check_signage_no_blue[OF this, of "height img" "width img"] assms
  show "\<exists>v. check_signage img (height img) (width img) = Some v
                 \<and> v \<in> set (parking_analyze img detection)
                 \<and> vtype v = JStr ''Parking Signage'' \<and> severity v = JStr ''Critical''"
    by (auto simp: parking_analyze_def in_found)
next
  assume "count_nonzero (inRange img blue_lower blue_upper) = 0"
  then show "blue_percentage img < min_blue_percentage" by (rule no_blue_pixels)
next
  assume "blue_percentage img \<ge> min_blue_percentage
            \<and> white_percentage img < min_white_percentage"
  then have "\<exists>v. check_signage img (height img) (width img) = Some v
       \<and> vtype v = JStr ''Wheelchair Symbol'' \<and> severity v = JStr ''Critical''"
    by (intro check_signage_no_white) simp_all
  with assms
  show "\<exists>v. check_signage img (height img) (width img) = Some v
                 \<and> v \<in> set (parking_analyze img detection)
                 \<and> vtype v = JStr ''Wheelchair Symbol'' \<and> severity v = JStr ''Critical''"
    by (auto simp: parking_analyze_def in_found)
next
  assume b: "blue_percentage img \<ge> min_blue_percentage
            \<and> white_percentage img \<ge> min_white_percentage"
  then show n: "check_signage img (height img) (width img) = None"
    by (intro check_signage_both) simp_all
  show "\<forall>v \<in> set (parking_analyze img detection).
                  vtype v \<noteq> JStr ''Parking Signage'' \<and> vtype v \<noteq> JStr ''Wheelchair Symbol''"
    using n by (auto simp: parking_analyze_def in_found dest!: check_sign_position_vtype)
qed

lemma upt_2: "[0..<2] = [0, 1]"
  by (simp add: upt_rec)

lemma blank_percentages:
  "blue_percentage (blank_region 1 1) = 0"
  by (simp add: blue_percentage_def inRange_def rows_def blank_region_def count_nonzero_def
      mask_size_def in_range_def blue_lower_def blue_upper_def)

lemma blue_only_percentages:
  "blue_percentage (hsv_region 1 1 (\<lambda>i j. (100, 200, 200))) = 1"
  "white_percentage (hsv_region 1 1 (\<lambda>i j. (100, 200, 200))) = 0"
  by (simp_all add: blue_percentage_def white_percentage_def inRange_def rows_def
      blank_region_def hsv_region_def count_nonzero_def
      mask_size_def in_range_def blue_lower_def blue_upper_def white_lower_def white_upper_def)

lemma blue_white_percentages:
  "blue_percentage (hsv_region 1 2 (\<lambda>i j. if j = 0 then (100, 200, 200) else (0, 0, 255))) = 1/2"
  "white_percentage (hsv_region 1 2 (\<lambda>i j. if j = 0 then (100, 200, 200) else (0, 0, 255))) = 1/2"
  by (simp_all add: blue_percentage_def white_percentage_def inRange_def rows_def
      blank_region_def hsv_region_def count_nonzero_def upt_2
      mask_size_def in_range_def blue_lower_def blue_upper_def white_lower_def white_upper_def)

theorem parking_signage_by_colour_witness:
  "(\<exists>v. v \<in> set (parking_analyze (blank_region 1 1) (some_detection ''car'' (0, 0, 1, 1)))
        \<and> vtype v = JStr ''Parking Signage'' \<and> severity v = JStr ''Critical'')
   \<and> (\<exists>v. v \<in> set (parking_analyze (hsv_region 1 1 (\<lambda>i j. (100, 200, 200)))
                       (some_detection ''car'' (0, 0, 1, 1)))
        \<and> vtype v = JStr ''Wheelchair Symbol'' \<and> severity v = JStr ''Critical'')
   \<and> check_signage (hsv_region 1 2 (\<lambda>i j. if j = 0 then (100, 200, 200) else (0, 0, 255))) 1 2
       = None"
  using parking_signage_by_colour[of "blank_region 1 1" "some_detection ''car'' (0, 0, 1, 1)"]
        parking_signage_by_colour[of "hsv_region 1 1 (\<lambda>i j. (100, 200, 200))"
                                      "some_detection ''car'' (0, 0, 1, 1)"]
        parking_signage_by_colour[of "hsv_region 1 2 (\<lambda>i j. if j = 0 then (100, 200, 200) else (0, 0, 255))"
                                      "some_detection ''car'' (0, 0, 1, 2)"]
        blank_percentages blue_only_percentages blue_white_percentages
  apply (simp add: image_size_def min_blue_percentage_def min_white_percentage_def)
  apply (simp add: blank_region_def hsv_region_def)
  by blast

section \<open>Sign position\<close>

lemma length_where_rows_aux:
  "length (concat (map (\<lambda>(i, row). replicate (length (filter (\<lambda>p. p > 0) row)) i)
                 (enumerate n m))) = length (filter (\<lambda>p. p > (0::nat)) (concat m))"
  by (induction m arbitrary: n) simp_all

lemma length_where_rows: "length (where_rows m) = count_nonzero m"
  by (simp add: where_rows_def count_nonzero_def length_where_rows_aux)

lemma low_sign_blue_positions: "blue_positions low_sign = [2]"
  by code_simp

lemma low_sign_blue_percentage: "blue_percentage low_sign = 1 / 21"
  by code_simp

lemma low_sign_count: "count_nonzero (inRange low_sign blue_lower blue_upper) = 1"
  by code_simp


lemma check_sign_position_low:
  assumes "count_nonzero (inRange img blue_lower blue_upper) > 0"
    and "mean (map real (blue_positions img)) / real h > 0.6"
  shows "\<exists>v. check_sign_position img h w = Some v \<and> vtype v = JStr ''Sign Height''
            \<and> severity v = JStr ''Moderate''"
proof -
  from assms(1) have "length (blue_positions img) > 0"
    by (simp add: blue_positions_def length_where_rows)
  with assms(2) show ?thesis
    by (simp add: check_sign_position_def Let_def)
qed

lemma low_sign_both:
  "image_size low_sign \<noteq> 0
   \<and> count_nonzero (inRange low_sign blue_lower blue_upper) > 0
   \<and> mean (map real (blue_positions low_sign)) / real (height low_sign) > 0.6
   \<and> blue_percentage low_sign < min_blue_percentage"
  by (simp add: low_sign_blue_positions low_sign_blue_percentage low_sign_count mean_def
      min_blue_percentage_def)
     (simp add: low_sign_def hsv_region_def blank_region_def image_size_def)

text \<open>
  C10. The sign-position check does not consult the signage check. On a non-empty region
  with at least one pixel in the blue range, when the mean row index of the blue pixels
  divided by the height exceeds 0.6, the position check returns a Moderate "Sign Height"
  violation and the analyzer's list holds it, whatever the blue fraction is. When the blue
  fraction is also below the signage threshold, the same list holds a Critical "Parking
  Signage" violation; and there is a region whose list holds both.
\<close>

theorem sign_height_independent_of_signage:
  assumes "image_size img \<noteq> 0"
    and "count_nonzero (inRange img blue_lower blue_upper) > 0"
    and "mean (map real (blue_positions img)) / real (height img) > 0.6"
  shows "(\<exists>v. check_sign_position img (height img) (width img) = Some v
             \<and> v \<in> set (parking_analyze img detection)
             \<and> vtype v = JStr ''Sign Height'' \<and> severity v = JStr ''Moderate'')
       \<and> (blue_percentage img < min_blue_percentage \<longrightarrow>
            (\<exists>u. u \<in> set (parking_analyze img detection)
                 \<and> vtype u = JStr ''Parking Signage'' \<and> severity u = JStr ''Critical''))
       \<and> (\<exists>img' u v. image_size img' \<noteq> 0
             \<and> u \<in> set (parking_analyze img' detection)
             \<and> vtype u = JStr ''Parking Signage''
             \<and> v \<in> set (parking_analyze img' detection)
             \<and> vtype v = JStr ''Sign Height'')"
proof -
  have pos: "\<exists>v. check_sign_position i (height i) (width i) = Some v
             \<and> v \<in> set (parking_analyze i detection)
             \<and> vtype v = JStr ''Sign Height'' \<and> severity v = JStr ''Moderate''"
    if "image_size i \<noteq> 0" "count_nonzero (inRange i blue_lower blue_upper) > 0"
      "mean (map real (blue_positions i)) / real (height i) > 0.6" for i
    using check_sign_position_low[OF that(2,3), of "width i"] that(1)
    by (auto simp: parking_analyze_def in_found)
  have sig: "\<exists>u. u \<in> set (parking_analyze i detection)
                 \<and> vtype u = JStr ''Parking Signage'' \<and> severity u = JStr ''Critical''"
    if "image_size i \<noteq> 0" "blue_percentage i < min_blue_percentage" for i
    using check_signage_no_blue[OF that(2), of "height i" "width i"] that(1)
    by (auto simp: parking_analyze_def in_found)
  have both: "\<exists>img' u v. image_size img' \<noteq> 0
             \<and> u \<in> set (parking_analyze img' detection)
             \<and> vtype u = JStr ''Parking Signage''
             \<and> v \<in> set (parking_analyze img' detection)
             \<and> vtype v = JStr ''Sign Height''"
  proof -
    from low_sign_both have a: "image_size low_sign \<noteq> 0"
      and b: "count_nonzero (inRange low_sign blue_lower blue_upper) > 0"
      and c: "mean (map real (blue_positions low_sign)) / real (height low_sign) > 0.6"
      and d: "blue_percentage low_sign < min_blue_percentage" by simp_all
    from pos[OF a b c] sig[OF a d] a show ?thesis by blast
  qed
  from pos[OF assms] sig[OF assms(1)] both show ?thesis by blast
qed

theorem sign_height_independent_of_signage_witness:
  "(\<exists>v. v \<in> set (parking_analyze low_sign (some_detection ''car'' (0, 0, 7, 3)))
        \<and> vtype v = JStr ''Sign Height'' \<and> severity v = JStr ''Moderate'')
   \<and> (\<exists>u. u \<in> set (parking_analyze low_sign (some_detection ''car'' (0, 0, 7, 3)))
        \<and> vtype u = JStr ''Parking Signage'' \<and> severity u = JStr ''Critical'')
   \<and> blue_percentage low_sign < min_blue_percentage"
proof -
  from low_sign_both have a: "image_size low_sign \<noteq> 0"
    and b: "count_nonzero (inRange low_sign blue_lower blue_upper) > 0"
    and c: "mean (map real (blue_positions low_sign)) / real (height low_sign) > 0.6"
    and d: "blue_percentage low_sign < min_blue_percentage" by simp_all
  from sign_height_independent_of_signage[OF a b c, of "some_detection ''car'' (0, 0, 7, 3)"] d
  show ?thesis by blast
qed

section \<open>Pathway obstruction\<close>

lemma check_obstruction_severity:
  "severity (check_obstruction img detection) = JStr ''Moderate''"
  by (simp add: check_obstruction_def Let_def split: prod.splits)

lemma check_obstruction_confidence:
  "confidence (check_obstruction img detection) =
     JNum ((if relative_size img detection > 0.3 then 0.65 else 0.60)
           + (if lower (class_name detection) \<in> set high_risk_objects then 0.05 else 0))"
  by (simp add: check_obstruction_def Let_def split: prod.splits)

text \<open>
  C4. The claim asks for severity "Critical" once the area fraction exceeds 0.5. The source
  tests \<open>> 0.3\<close> first and \<open>> 0.5\<close> in the \<open>elif\<close> of that test, so the second
  branch is never taken: the obstruction check returns severity "Moderate" on every input.
  For a chair whose box fills its 10 by 10 crop the area fraction is 1 and the analyzer
  returns one "Pathway Obstruction" violation of severity "Moderate"; its confidence is
  0.65 + 0.05, the nudge for a high-risk label.
\<close>

theorem pathway_obstruction_never_critical:
  "severity (check_obstruction img detection) = JStr ''Moderate''
   \<and> relative_size (blank_region 10 10) (some_detection ''chair'' (0, 0, 10, 10)) = 1
   \<and> pathway_analyze (blank_region 10 10) (some_detection ''chair'' (0, 0, 10, 10)) =
       [\<lparr>vtype = JStr ''Pathway Obstruction'', severity = JStr ''Moderate'',
         ada_code = JStr ''403.5.1'', confidence = JNum 0.70,
         detection_method = JStr ''rule_based_cv'',
         measurements = [(''object_type'', JStr ''chair''),
                         (''relative_size_percentage'', JNum 100),
                         (''required_clear_width_inches'', JNum 36),
                         (''max_protrusion_inches'', JNum 4)]\<rparr>]"
proof (intro conjI)
  show "severity (check_obstruction img detection) = JStr ''Moderate''"
    by (rule check_obstruction_severity)
  show rs: "relative_size (blank_region 10 10) (some_detection ''chair'' (0, 0, 10, 10)) = 1"
    by (simp add: relative_size_def blank_region_def some_detection_def)
  have lw: "lower ''chair'' = ''chair''"
    by (simp add: lower_def lower_char_def)
  have r: "round_to 100 (Suc 0) = 100"
    by (simp add: round_to_def py_round_def)
  show "pathway_analyze (blank_region 10 10) (some_detection ''chair'' (0, 0, 10, 10)) =
       [\<lparr>vtype = JStr ''Pathway Obstruction'', severity = JStr ''Moderate'',
         ada_code = JStr ''403.5.1'', confidence = JNum 0.70,
         detection_method = JStr ''rule_based_cv'',
         measurements = [(''object_type'', JStr ''chair''),
                         (''relative_size_percentage'', JNum 100),
                         (''required_clear_width_inches'', JNum 36),
                         (''max_protrusion_inches'', JNum 4)]\<rparr>]"
    by (simp add: pathway_analyze_def check_obstruction_def rs Let_def r)
       (simp add: some_detection_def lw obstruction_objects_def high_risk_objects_def
          blank_region_def image_size_def)
qed

section \<open>Ramp slope\<close>

lemma slope_angles_band: "a \<in> set (slope_angles ls) \<Longrightarrow> 10 < a \<and> a < 80"
  by (auto simp: slope_angles_def split: if_splits)

lemma check_slope_Some:
  assumes "check_slope img h w = Some v"
  shows "vtype v = JStr ''Ramp Slope'' \<and> severity v = JStr ''Critical''
       \<and> (\<exists>ls. slope_lines img = Some ls \<and> slope_angles ls \<noteq> []
              \<and> map_of (measurements v) ''detected_angle_degrees''
                  = Some (JNum (round_to (Max (set (slope_angles ls))) 1)))"
proof -
  from assms obtain ls where ls: "slope_lines img = Some ls"
    by (auto simp: check_slope_def split: option.splits)
  with assms have ne: "slope_angles ls \<noteq> []"
    by (auto simp: check_slope_def Let_def split: if_splits)
  then have "Max (set (slope_angles ls)) \<in> set (slope_angles ls)"
    by (intro Max_in) simp_all
  then have "10 < Max (set (slope_angles ls))"
    by (rule slope_angles_band[THEN conjunct1])
  with assms ls ne show ?thesis
    by (auto simp: check_slope_def Let_def max_slope_degrees_def split: if_splits)
qed


lemma degrees_quarter_pi: "degrees (pi / 4) = 45"
  by (simp add: degrees_def)

lemma line_angle_diagonal: "line_angle (0, 99, 99, 0) = 45"
  by (simp add: line_angle_def arctan_minus arctan_one degrees_def)

lemma slope_angles_diagonal: "slope_angles [(0, 99, 99, 0)] = [45]"
  by (simp add: slope_angles_def line_angle_diagonal)

lemma round_to_45: "round_to 45 (Suc 0) = 45"
  by (simp add: round_to_def py_round_def)

lemma check_slope_diagonal:
  "check_slope (lines_region 100 100 [(0, 99, 99, 0)]) 100 100 =
     Some \<lparr>vtype = JStr ''Ramp Slope'', severity = JStr ''Critical'',
           ada_code = JStr ''405.2'', confidence = JNum 0.60,
           detection_method = JStr ''rule_based_cv'',
           measurements = [(''detected_angle_degrees'', JNum 45),
                           (''max_allowed_angle_degrees'', JNum 4.76),
                           (''max_allowed_ratio'', JStr ''1:12''),
                           (''max_allowed_percentage'', JNum 8.33)]\<rparr>"
  by (simp add: check_slope_def lines_region_def blank_region_def slope_angles_diagonal
      max_slope_degrees_def round_to_45)

text \<open>
  C5. The slope check compares the steepest collected angle with 5.0 and then with 4.0, but
  it collects only angles strictly between 10 and 80 degrees. Whenever it returns a finding,
  that finding is a "Ramp Slope" violation of severity "Critical": no input yields a
  "Moderate" one.
\<close>

theorem check_slope_never_moderate:
  assumes "check_slope img h w = Some v"
  shows "vtype v = JStr ''Ramp Slope'' \<and> severity v = JStr ''Critical''
       \<and> severity v \<noteq> JStr ''Moderate''"
  using check_slope_Some[OF assms] by simp

theorem check_slope_never_moderate_witness:
  "check_slope (lines_region 100 100 [(0, 99, 99, 0)]) 100 100 \<noteq> None
   \<and> map_option severity (check_slope (lines_region 100 100 [(0, 99, 99, 0)]) 100 100)
       = Some (JStr ''Critical'')"
proof -
  obtain v where v: "check_slope (lines_region 100 100 [(0, 99, 99, 0)]) 100 100 = Some v"
    using check_slope_diagonal by blast
  from check_slope_never_moderate[OF v] v show ?thesis by simp
qed

lemma arctan_seventh_bounds: "pi / 28 < arctan (1 / 7)" "arctan (1 / 7) < pi / 20"
proof -
  have pos: "0 < arctan (3 / 79 :: real)"
    by (simp add: arctan_less_iff[of 0, simplified])
  have lt: "arctan (3 / 79 :: real) < arctan (1 / 7)"
    by (rule arctan_monotone) simp
  from machin_Euler pos show "arctan (1 / 7) < pi / 20" by linarith
  from machin_Euler lt show "pi / 28 < arctan (1 / 7)" by linarith
qed

lemma line_angle_seventh: "line_angle (0, 99, 693, 0) = arctan (1 / 7) * 180 / pi"
proof -
  have "0 < arctan (1 / 7 :: real)"
    using arctan_seventh_bounds(1) pi_gt_zero by linarith
  then show ?thesis
    by (simp add: line_angle_def arctan_minus degrees_def)
qed

lemma line_angle_seventh_bounds:
  "4.76 < line_angle (0, 99, 693, 0)" "line_angle (0, 99, 693, 0) < 10"
proof -
  have a: "180 / 28 < arctan (1 / 7) * 180 / pi"
    using arctan_seventh_bounds(1) pi_gt_zero by (simp add: field_simps)
  have b: "arctan (1 / 7) * 180 / pi < 9"
    using arctan_seventh_bounds(2) pi_gt_zero by (simp add: field_simps)
  from a show "4.76 < line_angle (0, 99, 693, 0)" by (simp add: line_angle_seventh)
  from b show "line_angle (0, 99, 693, 0) < 10" by (simp add: line_angle_seventh)
qed


lemma line_angle_warning_band: "line_angle (0, 79, 1000, 0) < 10"
proof -
  have "arctan (79 / 1000 :: real) < arctan (1 / 7)"
    by (rule arctan_monotone) simp
  with arctan_seventh_bounds(2) have a: "arctan (79 / 1000 :: real) < pi / 20" by linarith
  have p: "0 < arctan (79 / 1000 :: real)"
    by (simp add: arctan_less_iff[of 0, simplified])
  from a have "arctan (79 / 1000) * 180 / pi < 9"
    using pi_gt_zero by (simp add: field_simps)
  with p show ?thesis
    by (simp add: line_angle_def arctan_minus degrees_def)
qed

lemma check_slope_warning_band:
  "check_slope (lines_region 100 1001 [(0, 79, 1000, 0)]) 100 1001 = None"
  using line_angle_warning_band
  by (simp add: check_slope_def lines_region_def blank_region_def slope_angles_def)

lemma check_handrails_vtype:
  "check_handrails img h w = Some v \<Longrightarrow> vtype v = JStr ''Ramp Handrails''"
  by (auto simp: check_handrails_def Let_def split: option.splits if_splits)

lemma slope_angles_seventh: "slope_angles [(0, 99, 693, 0)] = []"
  using line_angle_seventh_bounds(2) by (simp add: slope_angles_def)

lemma check_slope_seventh:
  "check_slope (lines_region 100 700 [(0, 99, 693, 0)]) 100 700 = None"
  by (simp add: check_slope_def lines_region_def blank_region_def slope_angles_seventh)

text \<open>
  C3. The claim asks for a "Ramp Slope" violation for every line steeper than 4.76 degrees,
  the limit that the analyzer's own documentation names. Line detection reports the single
  segment from (0, 99) to (693, 0), bottom-left to top-right with slope 1/7; its angle from
  horizontal, about 8.13 degrees, exceeds 4.76 degrees and both thresholds of the check. The
  check drops every angle that is not strictly between 10 and 80 degrees before it compares:
  it returns nothing, and the ramp analyzer's list has no "Ramp Slope" violation.
\<close>

theorem ramp_slope_shallow_line_no_finding:
  "4.76 < line_angle (0, 99, 693, 0)
   \<and> slope_lines (lines_region 100 700 [(0, 99, 693, 0)]) = Some [(0, 99, 693, 0)]
   \<and> check_slope (lines_region 100 700 [(0, 99, 693, 0)]) 100 700 = None
   \<and> filter (\<lambda>v. vtype v = JStr ''Ramp Slope'')
        (ramp_analyze (lines_region 100 700 [(0, 99, 693, 0)])
           (some_detection ''ramp'' (0, 0, 700, 100))) = []"
proof (intro conjI)
  show "4.76 < line_angle (0, 99, 693, 0)" by (rule line_angle_seventh_bounds(1))
  show "slope_lines (lines_region 100 700 [(0, 99, 693, 0)]) = Some [(0, 99, 693, 0)]"
    by (simp add: lines_region_def)
  show "check_slope (lines_region 100 700 [(0, 99, 693, 0)]) 100 700 = None"
    by (rule check_slope_seventh)
  have hw: "height (lines_region 100 700 ls) = 100" "width (lines_region 100 700 ls) = 700" for ls
    by (simp_all add: lines_region_def blank_region_def)
  show "filter (\<lambda>v. vtype v = JStr ''Ramp Slope'')
        (ramp_analyze (lines_region 100 700 [(0, 99, 693, 0)])
           (some_detection ''ramp'' (0, 0, 700, 100))) = []"
    by (auto simp: filter_empty_conv ramp_analyze_def in_found hw check_slope_seventh
        dest!: check_handrails_vtype)
qed

lemma py_round_near: "\<bar>of_int (py_round y) - y\<bar> \<le> 1 / 2"
proof -
  have "of_int \<lfloor>y\<rfloor> \<le> y" "y < of_int \<lfloor>y\<rfloor> + 1" by linarith+
  then show ?thesis
    by (auto simp: py_round_def Let_def)
qed

lemma round_to_near: "\<bar>round_to a 1 - a\<bar> \<le> 1 / 20"
proof -
  have r: "round_to a 1 = of_int (py_round (a * 10)) / 10"
    by (simp add: round_to_def)
  from py_round_near[of "a * 10"] show ?thesis
    unfolding r by linarith
qed

lemma check_slope_steepest:
  assumes "slope_lines img = Some ls" and "slope_angles ls \<noteq> []"
  shows "\<exists>v. check_slope img h w = Some v
           \<and> vtype v = JStr ''Ramp Slope'' \<and> severity v = JStr ''Critical''
           \<and> map_of (measurements v) ''detected_angle_degrees''
               = Some (JNum (round_to (Max (set (slope_angles ls))) 1))
           \<and> \<bar>round_to (Max (set (slope_angles ls))) 1 - Max (set (slope_angles ls))\<bar> \<le> 1 / 20"
proof -
  from assms(2) have "Max (set (slope_angles ls)) \<in> set (slope_angles ls)"
    by (intro Max_in) simp_all
  then have "10 < Max (set (slope_angles ls))"
    by (rule slope_angles_band[THEN conjunct1])
  moreover from assms(2) have "ls \<noteq> []"
    by (auto simp: slope_angles_def)
  ultimately have "check_slope img h w \<noteq> None"
    using assms by (simp add: check_slope_def Let_def max_slope_degrees_def)
  then obtain v where v: "check_slope img h w = Some v" by blast
  from check_slope_Some[OF v] assms(1) round_to_near v show ?thesis
    by auto
qed

section \<open>Aggregator output\<close>

lemma str_nat_small: "n < 10 \<Longrightarrow> str_nat n = [char_of (48 + n)]"
  by (subst str_nat.simps) simp

lemma str_nat_large:
  "\<not> n < 10 \<Longrightarrow> str_nat n = str_nat (n div 10) @ [char_of (48 + n mod 10)]"
  by (subst str_nat.simps) simp

lemma str_nat_not_Nil: "str_nat n \<noteq> []"
  by (subst str_nat.simps) simp

lemma length_str_nat_large: "\<not> n < 10 \<Longrightarrow> 2 \<le> length (str_nat n)"
proof -
  assume n: "\<not> n < 10"
  have "1 \<le> length (str_nat (n div 10))"
    using str_nat_not_Nil[of "n div 10"] by (cases "str_nat (n div 10)") simp_all
  then show ?thesis
    unfolding str_nat_large[OF n] by simp
qed

lemma length_str_nat_small: "n < 10 \<Longrightarrow> length (str_nat n) = 1"
  by (simp add: str_nat_small)

lemma digit_char_inj:
  assumes "a < (10::nat)" and "b < 10" and "char_of (48 + a) = (char_of (48 + b) :: char)"
  shows "a = b"
proof -
  from assms(3) have "(48 + a) mod 256 = (48 + b) mod 256"
    by (simp add: char_of_eq_iff take_bit_eq_mod)
  with assms(1,2) show ?thesis by simp
qed

lemma str_nat_inj: "str_nat n = str_nat m \<Longrightarrow> n = m"
proof (induction n arbitrary: m rule: str_nat.induct)
  case (1 n)
  show ?case
  proof (cases "n < 10")
    case True
    have m: "m < 10"
    proof (rule ccontr)
      assume "\<not> m < 10"
      from length_str_nat_large[OF this] length_str_nat_small[OF True] "1.prems"
      show False by simp
    qed
    from "1.prems" have "char_of (48 + n) = (char_of (48 + m) :: char)"
      unfolding str_nat_small[OF True] str_nat_small[OF m] by simp
    with True m show ?thesis by (rule digit_char_inj)
  next
    case False
    have m: "\<not> m < 10"
    proof
      assume "m < 10"
      from length_str_nat_small[OF this] length_str_nat_large[OF False] "1.prems"
      show False by simp
    qed
    from "1.prems" have "str_nat (n div 10) = str_nat (m div 10)"
      and c: "char_of (48 + n mod 10) = (char_of (48 + m mod 10) :: char)"
      unfolding str_nat_large[OF False] str_nat_large[OF m] by simp_all
    with "1.IH"[OF False] have d: "n div 10 = m div 10" by simp
    from c have "n mod 10 = m mod 10"
      by (intro digit_char_inj) simp_all
    with d show ?thesis
      by (metis div_mult_mod_eq)
  qed
qed

lemma detection_key_inj: "detection_key i = detection_key j \<Longrightarrow> i = j"
  by (simp add: detection_key_def str_nat_inj)

lemma dict_set_fresh: "k \<notin> fst ` set d \<Longrightarrow> dict_set d k v = d @ [(k, v)]"
  by (induction d) auto

lemma analyze_loop_returns:
  assumes "\<forall>d \<in> set ds. \<exists>vs. analyze d = Inr vs"
    and "fst ` set acc \<subseteq> detection_key ` {..<n}"
  shows "analyze_loop analyze name n ds acc
         = Inr (acc @ map (\<lambda>(i, d). (detection_key i, make_entry (projr (analyze d)) name i d))
                          (enumerate n ds))"
  using assms
proof (induction ds arbitrary: n acc)
  case Nil
  then show ?case by simp
next
  case (Cons d ds)
  from Cons.prems(1) obtain vs where vs: "analyze d = Inr vs" by auto
  have fresh: "detection_key n \<notin> fst ` set acc"
  proof
    assume "detection_key n \<in> fst ` set acc"
    with Cons.prems(2) obtain j where "j < n" "detection_key n = detection_key j" by auto
    then show False by (auto dest: detection_key_inj)
  qed
  let ?acc = "acc @ [(detection_key n, make_entry vs name n d)]"
  from Cons.prems(1) have "\<forall>d \<in> set ds. \<exists>vs. analyze d = Inr vs" by simp
  moreover from Cons.prems(2) have "fst ` set ?acc \<subseteq> detection_key ` {..<Suc n}"
    by (auto simp: lessThan_Suc)
  ultimately have "analyze_loop analyze name (Suc n) ds ?acc
         = Inr (?acc @ map (\<lambda>(i, d). (detection_key i, make_entry (projr (analyze d)) name i d))
                          (enumerate (Suc n) ds))"
    by (rule Cons.IH)
  with fresh vs show ?case
    by (simp add: dict_set_fresh)
qed

lemma analyze_loop_Inr:
  "analyze_loop analyze name n ds acc = Inr out \<Longrightarrow> \<forall>d \<in> set ds. \<exists>vs. analyze d = Inr vs"
  by (induction ds arbitrary: n acc) (auto split: sum.splits)

lemma analyze_all_detections_eq:
  assumes "\<forall>d \<in> set ds. \<exists>vs. analyze d = Inr vs"
  shows "analyze_all_detections analyze name ds
     = Inr (map (\<lambda>(i, d). (detection_key i, make_entry (projr (analyze d)) name i d))
                (enumerate 0 ds))"
  using analyze_loop_returns[OF assms, of "[]" 0 name]
  by (simp add: analyze_all_detections_def)

lemma entries_keys:
  "map fst (map (\<lambda>(i, d). (detection_key i, make_entry (f d) name i d)) (enumerate 0 ds))
     = map detection_key [0..<length ds]"
  by (rule nth_equalityI) (simp_all add: nth_enumerate_eq)

lemma analyze_all_detections_raises:
  assumes "d \<in> set ds" and "analyze d = Inl e"
  shows "\<exists>e'. analyze_all_detections analyze name ds = Inl e'"
proof (cases "analyze_all_detections analyze name ds")
  case (Inl e')
  then show ?thesis by blast
next
  case (Inr out)
  then have "\<forall>d \<in> set ds. \<exists>vs. analyze d = Inr vs"
    unfolding analyze_all_detections_def by (rule analyze_loop_Inr)
  with assms show ?thesis by auto
qed

lemma analyze_loop_first_raise:
  assumes "\<forall>x \<in> set pre. \<exists>vs. analyze x = Inr vs" and "analyze d = Inl e"
  shows "analyze_loop analyze name i (pre @ d # post) results = Inl e"
  using assms(1)
proof (induction pre arbitrary: i results)
  case Nil
  show ?case by (simp add: assms(2))
next
  case (Cons x pre)
  from Cons.prems obtain vs where vs: "analyze x = Inr vs" by auto
  from Cons.prems have "\<forall>x \<in> set pre. \<exists>vs. analyze x = Inr vs" by simp
  from Cons.IH[OF this] show ?case by (simp add: vs)
qed

text \<open>
  C9, amended. When the analysis of every detection of the list returns, the aggregator
  returns a dictionary; and whenever it returns one for a list of N detections, the
  dictionary has exactly N entries, its keys are \<open>detection_0\<close>, ...,
  \<open>detection_(N-1)\<close> in this order and pairwise distinct, and the entry at position
  \<open>i\<close>, which is also the value stored under the key of \<open>i\<close>, carries the label and
  the box of the \<open>i\<close>-th detection unchanged and the index \<open>i\<close>. When the analysis of
  some detection raises, the aggregator returns no dictionary: it raises the exception of the
  first detection whose analysis raises.
\<close>

theorem aggregator_one_entry_per_detection:
  "((\<forall>d \<in> set ds. \<exists>vs. analyze d = Inr vs) \<longrightarrow>
      (\<exists>out. analyze_all_detections analyze name ds = Inr out))
   \<and> (\<forall>out. analyze_all_detections analyze name ds = Inr out \<longrightarrow>
        length out = length ds
      \<and> map fst out = map detection_key [0..<length ds]
      \<and> distinct (map fst out)
      \<and> (\<forall>i < length ds.
            fst (out ! i) = detection_key i
          \<and> map_of out (detection_key i) = Some (snd (out ! i))
          \<and> object (snd (out ! i)) = class_name (ds ! i)
          \<and> entry_bbox (snd (out ! i)) = (case bbox (ds ! i) of (x, y, w, h) \<Rightarrow> [x, y, w, h])
          \<and> analyze (ds ! i) = Inr (violations (snd (out ! i)))
          \<and> detection_index (snd (out ! i)) = i))
   \<and> ((\<exists>d \<in> set ds. \<exists>e. analyze d = Inl e) \<longrightarrow>
        (\<exists>e. analyze_all_detections analyze name ds = Inl e))
   \<and> (\<forall>pre d post e.
        ds = pre @ d # post \<and> (\<forall>x \<in> set pre. \<exists>vs. analyze x = Inr vs) \<and> analyze d = Inl e \<longrightarrow>
        analyze_all_detections analyze name ds = Inl e)"
proof (intro conjI allI impI)
  fix pre d post e
  assume a: "ds = pre @ d # post \<and> (\<forall>x \<in> set pre. \<exists>vs. analyze x = Inr vs)
    \<and> analyze d = Inl e"
  show "analyze_all_detections analyze name ds = Inl e"
    unfolding analyze_all_detections_def a[THEN conjunct1]
    by (rule analyze_loop_first_raise[OF a[THEN conjunct2, THEN conjunct1]
          a[THEN conjunct2, THEN conjunct2]])
next
  assume "\<forall>d \<in> set ds. \<exists>vs. analyze d = Inr vs"
  from analyze_all_detections_eq[OF this]
  show "\<exists>out. analyze_all_detections analyze name ds = Inr out" by blast
next
  assume "\<exists>d \<in> set ds. \<exists>e. analyze d = Inl e"
  then show "\<exists>e. analyze_all_detections analyze name ds = Inl e"
    using analyze_all_detections_raises by blast
next
  fix out
  assume out: "analyze_all_detections analyze name ds = Inr out"
  then have ok: "\<forall>d \<in> set ds. \<exists>vs. analyze d = Inr vs"
    unfolding analyze_all_detections_def by (rule analyze_loop_Inr)
  from analyze_all_detections_eq[OF ok, of name] out
  have eq: "out = map (\<lambda>(i, d). (detection_key i, make_entry (projr (analyze d)) name i d))
                      (enumerate 0 ds)"
    by simp
  show len: "length out = length ds"
    by (simp add: eq)
  show keys: "map fst out = map detection_key [0..<length ds]"
    unfolding eq by (rule entries_keys)
  show dist: "distinct (map fst out)"
    unfolding keys by (auto simp: distinct_map intro!: inj_onI dest: detection_key_inj)
  fix i assume i: "i < length ds"
  then have nth: "out ! i = (detection_key i, make_entry (projr (analyze (ds ! i))) name i (ds ! i))"
    by (simp add: eq nth_enumerate_eq)
  from ok i obtain vs where vs: "analyze (ds ! i) = Inr vs" by (meson nth_mem)
  show "fst (out ! i) = detection_key i"
    by (simp add: nth)
  from i len have "out ! i \<in> set out" by simp
  then have "(detection_key i, snd (out ! i)) \<in> set out"
    by (simp add: nth)
  with dist show "map_of out (detection_key i) = Some (snd (out ! i))"
    by simp
  show "object (snd (out ! i)) = class_name (ds ! i)"
    by (simp add: nth make_entry_def)
  show "entry_bbox (snd (out ! i)) = (case bbox (ds ! i) of (x, y, w, h) \<Rightarrow> [x, y, w, h])"
    by (simp add: nth make_entry_def)
  show "analyze (ds ! i) = Inr (violations (snd (out ! i)))"
    by (simp add: nth make_entry_def vs)
  show "detection_index (snd (out ! i)) = i"
    by (simp add: nth make_entry_def)
qed

theorem aggregator_one_entry_per_detection_witness:
  "(\<exists>out. analyze_all_detections (\<lambda>d. Inr []) ''rule_based_cv''
           [some_detection ''chair'' (1, 2, 3, 4), some_detection ''door'' (5, 6, 7, 8)] = Inr out
      \<and> length out = 2
      \<and> map fst out = [''detection_0'', ''detection_1'']
      \<and> object (snd (out ! 1)) = ''door''
      \<and> entry_bbox (snd (out ! 1)) = [5, 6, 7, 8])
   \<and> analyze_all_detections
         (\<lambda>d. if class_name d = ''door'' then Inl TypeError else Inr []) ''rule_based_cv''
         [some_detection ''chair'' (1, 2, 3, 4), some_detection ''door'' (5, 6, 7, 8)]
       = Inl TypeError"
proof (rule conjI)
  let ?ds = "[some_detection ''chair'' (1, 2, 3, 4), some_detection ''door'' (5, 6, 7, 8)]"
  let ?an = "\<lambda>d :: DetectionResult. (Inr [] :: py_error + ViolationResult list)"
  let ?bad = "\<lambda>d :: DetectionResult.
    if class_name d = ''door'' then Inl TypeError else (Inr [] :: py_error + ViolationResult list)"
  note inst = aggregator_one_entry_per_detection[of ?ds ?an "''rule_based_cv''"]
  have k: "detection_key 0 = ''detection_0''" "detection_key (Suc 0) = ''detection_1''"
    by (simp_all add: detection_key_def str_nat_small char_of_def bit_Suc_0_iff)
  have u: "[0..<2] = [0, Suc 0]" by (simp add: upt_rec)
  from inst[THEN conjunct1]
  obtain out where out: "analyze_all_detections ?an ''rule_based_cv'' ?ds = Inr out"
    by auto
  from inst[THEN conjunct2, THEN conjunct1, rule_format, OF out]
  have "length out = 2" and "map fst out = [''detection_0'', ''detection_1'']"
    and "object (snd (out ! 1)) = ''door''" and "entry_bbox (snd (out ! 1)) = [5, 6, 7, 8]"
    by (simp_all add: k u some_detection_def)
  with out show "\<exists>out. analyze_all_detections ?an ''rule_based_cv'' ?ds = Inr out
      \<and> length out = 2
      \<and> map fst out = [''detection_0'', ''detection_1'']
      \<and> object (snd (out ! 1)) = ''door''
      \<and> entry_bbox (snd (out ! 1)) = [5, 6, 7, 8]"
    by (intro exI[of _ out]) simp
  have split: "?ds = [some_detection ''chair'' (1, 2, 3, 4)] @ some_detection ''door'' (5, 6, 7, 8) # []"
    by simp
  have pre: "\<forall>x \<in> set [some_detection ''chair'' (1, 2, 3, 4)]. \<exists>vs. ?bad x = Inr vs"
    by (simp add: some_detection_def)
  have bad: "?bad (some_detection ''door'' (5, 6, 7, 8)) = Inl TypeError"
    by (simp add: some_detection_def)
  show "analyze_all_detections ?bad ''rule_based_cv'' ?ds = Inl TypeError"
    by (rule aggregator_one_entry_per_detection[of ?ds ?bad "''rule_based_cv''",
          THEN conjunct2, THEN conjunct2, THEN conjunct2, rule_format])
      (rule conjI, rule split, rule conjI, rule pre, rule bad)
qed

text \<open>
  C9, as stated, fails. The model-backed analyzer inherits the aggregator. When the model
  answers with the text \<open>123\<close>, the text decodes to a number, which has no \<open>get\<close>: the
  analysis of the detection raises \<open>AttributeError\<close>, and so does the aggregator on a list
  of one detection, which returns no entry.
\<close>

theorem aggregator_raising_analyzer_counterexample:
  "claude_analyze_detection False json_loads (\<lambda>d. ApiText ''123'')
      (\<lambda>d. Some (blank_region 8 2)) (some_detection ''door'' (0, 0, 2, 8))
     = Inl AttributeError
   \<and> analyze_all_detections
        (claude_analyze_detection False json_loads (\<lambda>d. ApiText ''123'')
           (\<lambda>d. Some (blank_region 8 2)))
        ''claude_api'' [some_detection ''door'' (0, 0, 2, 8)]
     = Inl AttributeError"
proof -
  have l: "json_loads ''123'' = Inr (JNum 123)"
    by code_simp
  have a: "claude_analyze_detection False json_loads (\<lambda>d. ApiText ''123'')
      (\<lambda>d. Some (blank_region 8 2)) (some_detection ''door'' (0, 0, 2, 8))
     = Inl AttributeError"
    by (simp add: claude_analyze_detection_def claude_analyze_def extract_json_def l
        parse_response_def)
       (simp add: blank_region_def image_size_def)
  show ?thesis
    by (simp add: a analyze_all_detections_def)
qed

section \<open>Severity and confidence\<close>

lemma check_width_valid: "check_width img h w = Some v \<Longrightarrow> valid_record v"
  by (auto simp: check_width_def valid_record_def Let_def split: if_splits)

lemma check_threshold_valid: "check_threshold img h w = Some v \<Longrightarrow> valid_record v"
  by (auto simp: check_threshold_def valid_record_def Let_def min_def split: if_splits)

lemma check_hardware_valid: "check_hardware img h w = Some v \<Longrightarrow> valid_record v"
  by (auto simp: check_hardware_def valid_record_def Let_def split: if_splits)

lemma check_signage_valid: "check_signage img h w = Some v \<Longrightarrow> valid_record v"
  by (auto simp: check_signage_def valid_record_def Let_def split: if_splits)

lemma check_sign_position_valid: "check_sign_position img h w = Some v \<Longrightarrow> valid_record v"
  by (auto simp: check_sign_position_def valid_record_def Let_def split: if_splits)

lemma check_obstruction_valid: "valid_record (check_obstruction img detection)"
  by (simp add: valid_record_def check_obstruction_severity check_obstruction_confidence)

lemma check_slope_valid: "check_slope img h w = Some v \<Longrightarrow> valid_record v"
  by (auto simp: check_slope_def valid_record_def Let_def split: option.splits if_splits)

lemma check_handrails_valid: "check_handrails img h w = Some v \<Longrightarrow> valid_record v"
  by (auto simp: check_handrails_def valid_record_def Let_def split: option.splits if_splits)

lemma check_contrast_valid: "check_contrast img h w = Some v \<Longrightarrow> valid_record v"
  by (auto simp: check_contrast_def valid_record_def Let_def split: if_splits)

lemma check_tactile_features_valid:
  "check_tactile_features img h w = Some v \<Longrightarrow> valid_record v"
  by (auto simp: check_tactile_features_def valid_record_def Let_def split: if_splits)

lemma door_analyze_valid: "v \<in> set (door_analyze img detection) \<Longrightarrow> valid_record v"
  by (auto simp: door_analyze_def in_found split: if_splits
      dest: check_width_valid check_threshold_valid check_hardware_valid)

lemma parking_analyze_valid: "v \<in> set (parking_analyze img detection) \<Longrightarrow> valid_record v"
  by (auto simp: parking_analyze_def in_found split: if_splits
      dest: check_signage_valid check_sign_position_valid)

lemma pathway_analyze_valid: "v \<in> set (pathway_analyze img detection) \<Longrightarrow> valid_record v"
  by (auto simp: pathway_analyze_def check_obstruction_valid split: if_splits)

lemma ramp_analyze_valid: "v \<in> set (ramp_analyze img detection) \<Longrightarrow> valid_record v"
  by (auto simp: ramp_analyze_def in_found split: if_splits
      dest: check_slope_valid check_handrails_valid)

lemma signage_analyze_valid: "v \<in> set (signage_analyze img detection) \<Longrightarrow> valid_record v"
  by (auto simp: signage_analyze_def in_found split: if_splits
      dest: check_contrast_valid check_tactile_features_valid)

lemma analyze_detection_valid:
  "v \<in> set (analyze_detection get_crop detection) \<Longrightarrow> valid_record v"
  by (auto simp: analyze_detection_def Let_def split: option.splits if_splits
      dest: door_analyze_valid parking_analyze_valid pathway_analyze_valid ramp_analyze_valid
        signage_analyze_valid)

lemma parse_mock_entry:
  "parse_violation (JObj [(''type'', JStr t), (''severity'', JStr s),
                          (''ada_code'', JStr code), (''confidence'', JNum c)])
     = [mock_violation t s code c]"
  by (simp add: parse_violation_def dict_get_def mock_violation_def)

lemma parse_mock_response:
  "parse_response (JObj [(''violations'', JArr es), (''overall_assessment'', a), (''notes'', n)])
     = Inr (concat (map parse_violation es))"
  by (simp add: parse_response_def dict_get_def)

lemma parse_response_mock:
  "parse_response (mock_analyze object_name) =
     Inr (if object_name \<in> set [''door'', ''entrance'']
          then [mock_violation ''Door Width'' ''Critical'' ''404.2.3'' 0.7]
          else if object_name \<in> set [''car'', ''truck'', ''parking'']
          then [mock_violation ''Signage'' ''Critical'' ''502.6'' 0.8]
          else if object_name \<in> set [''chair'', ''couch'', ''bench'', ''potted_plant'']
          then [mock_violation ''Obstruction'' ''Moderate'' ''403.5.1'' 0.6]
          else [])"
proof -
  have r: "parse_response (if A then x else y) = (if A then parse_response x else parse_response y)"
    for A x y by (rule if_distrib)
  have i: "Inr (if A then x else y) = (if A then Inr x else (Inr y :: py_error + ViolationResult list))"
    for A x y by (rule if_distrib)
  show ?thesis
    unfolding mock_analyze_def r i parse_mock_response list.map concat.simps parse_mock_entry
      append_Nil2
    by (rule refl)
qed

lemma branches_cases:
  assumes "v \<in> set (if A then [a] else if B then [b] else if C then [c] else [])"
    and "P a" and "P b" and "P c"
  shows "P v"
  using assms by (auto split: if_splits)

lemma mock_violation_valid:
  "s \<in> {''Critical'', ''Moderate'', ''Minor''} \<Longrightarrow> 0 \<le> c \<Longrightarrow> c \<le> 1
     \<Longrightarrow> valid_record (mock_violation t s code c)"
  by (auto simp: valid_record_def mock_violation_def)

lemma mock_analyze_valid:
  assumes "parse_response (mock_analyze object_name) = Inr vs" and "v \<in> set vs"
  shows "valid_record v"
proof -
  from assms(1) have vs: "(if object_name \<in> set [''door'', ''entrance'']
          then [mock_violation ''Door Width'' ''Critical'' ''404.2.3'' 0.7]
          else if object_name \<in> set [''car'', ''truck'', ''parking'']
          then [mock_violation ''Signage'' ''Critical'' ''502.6'' 0.8]
          else if object_name \<in> set [''chair'', ''couch'', ''bench'', ''potted_plant'']
          then [mock_violation ''Obstruction'' ''Moderate'' ''403.5.1'' 0.6]
          else []) = vs"
    unfolding parse_response_mock by (rule sum.inject[THEN iffD1])
  have a: "valid_record (mock_violation ''Door Width'' ''Critical'' ''404.2.3'' 0.7)"
    by (rule mock_violation_valid) simp_all
  have b: "valid_record (mock_violation ''Signage'' ''Critical'' ''502.6'' 0.8)"
    by (rule mock_violation_valid) simp_all
  have c: "valid_record (mock_violation ''Obstruction'' ''Moderate'' ''403.5.1'' 0.6)"
    by (rule mock_violation_valid) simp_all
  from assms(2) show ?thesis
    unfolding vs[symmetric] by (rule branches_cases) (rule a b c)+
qed


lemma claude_mock_valid:
  assumes "claude_analyze_detection True loads api get_crop detection = Inr vs"
    and "v \<in> set vs"
  shows "valid_record v"
proof (cases "get_crop detection")
  case None
  with assms(1) show ?thesis by (simp add: claude_analyze_detection_def)
next
  case (Some cropped)
  show ?thesis
  proof (cases "image_size cropped = 0")
    case True
    with Some assms show ?thesis by (simp add: claude_analyze_detection_def)
  next
    case False
    with Some assms(1) have "parse_response (mock_analyze (class_name detection)) = Inr vs"
      by (simp add: claude_analyze_detection_def)
    from mock_analyze_valid[OF this assms(2)] show ?thesis .
  qed
qed

lemma parse_response_entries:
  assumes "parse_response (JObj r) = Inr vs"
    and "dict_get r ''violations'' (JArr []) = JArr es"
    and "v \<in> set vs"
  shows "\<exists>d. JObj d \<in> set es
           \<and> severity v = dict_get d ''severity'' (JStr ''Minor'')
           \<and> confidence v = dict_get d ''confidence'' (JNum 0.5)"
proof -
  from assms(1,2) have "vs = concat (map parse_violation es)"
    by (simp add: parse_response_def)
  with assms(3) obtain e where e: "e \<in> set es" "v \<in> set (parse_violation e)" by auto
  from e(2) obtain d where "e = JObj d"
    by (cases e) (simp_all add: parse_violation_def)
  with e show ?thesis
    by (auto simp: parse_violation_def)
qed

text \<open>
  C1, amended. Every record returned by the rule-based analyzer, whichever category
  analyzer the label is routed to, has a severity among "Critical", "Moderate", "Minor" and a
  confidence between 0 and 1; so has every record of each category analyzer called
  directly, and every record of the model-backed analyzer in mock mode. A record that the
  model-backed analyzer builds from a response carries, unchecked, what the entry of the
  response holds under \<open>severity\<close> and \<open>confidence\<close> ("Minor" and 0.5 when the key is
  absent).
\<close>

theorem severity_and_confidence_of_records:
  "(\<forall>v \<in> set (analyze_detection get_crop detection). valid_record v)
   \<and> (\<forall>v \<in> set (door_analyze img detection) \<union> set (parking_analyze img detection)
            \<union> set (pathway_analyze img detection) \<union> set (ramp_analyze img detection)
            \<union> set (signage_analyze img detection). valid_record v)
   \<and> (\<forall>vs. claude_analyze_detection True loads api get_crop detection = Inr vs \<longrightarrow>
          (\<forall>v \<in> set vs. valid_record v))
   \<and> (\<forall>vs es. parse_response (JObj r) = Inr vs
                 \<and> dict_get r ''violations'' (JArr []) = JArr es \<longrightarrow>
          (\<forall>v \<in> set vs. \<exists>d. JObj d \<in> set es
              \<and> severity v = dict_get d ''severity'' (JStr ''Minor'')
              \<and> confidence v = dict_get d ''confidence'' (JNum 0.5)))"
proof (intro conjI ballI allI impI)
  fix v assume "v \<in> set (analyze_detection get_crop detection)"
  then show "valid_record v" by (rule analyze_detection_valid)
next
  fix v
  assume "v \<in> set (door_analyze img detection) \<union> set (parking_analyze img detection)
            \<union> set (pathway_analyze img detection) \<union> set (ramp_analyze img detection)
            \<union> set (signage_analyze img detection)"
  then show "valid_record v"
    using door_analyze_valid parking_analyze_valid pathway_analyze_valid ramp_analyze_valid
      signage_analyze_valid by blast
next
  fix vs v
  assume "claude_analyze_detection True loads api get_crop detection = Inr vs" "v \<in> set vs"
  then show "valid_record v" by (rule claude_mock_valid)
next
  fix vs es v
  assume "parse_response (JObj r) = Inr vs \<and> dict_get r ''violations'' (JArr []) = JArr es"
    and "v \<in> set vs"
  then show "\<exists>d. JObj d \<in> set es
              \<and> severity v = dict_get d ''severity'' (JStr ''Minor'')
              \<and> confidence v = dict_get d ''confidence'' (JNum 0.5)"
    using parse_response_entries by blast
qed

lemma lower_door: "lower ''door'' = ''door''"
  by (simp add: lower_def lower_char_def)

lemma round_to_4: "round_to 4 2 = 4"
  by (simp add: round_to_def py_round_def)

lemma upt_8: "[0..<8] = [0, 1, 2, 3, 4, 5, 6, 7]"
  by (simp add: upt_rec)

lemma check_threshold_blank: "check_threshold (blank_region 8 2) 8 2 = None"
  by (simp add: check_threshold_def rows_def blank_region_def Let_def upt_8)

lemma narrow_door_records:
  "analyze_detection (\<lambda>d. Some (blank_region 8 2)) (some_detection ''door'' (0, 0, 2, 8)) =
     [\<lparr>vtype = JStr ''Door Width'', severity = JStr ''Critical'', ada_code = JStr ''404.2.3'',
       confidence = JNum 0.70, detection_method = JStr ''rule_based_cv'',
       measurements = [(''aspect_ratio'', JNum 4), (''estimated_width_inches'', JNum 28),
                       (''required_width_inches'', JNum 32)]\<rparr>,
      \<lparr>vtype = JStr ''Door Hardware'', severity = JStr ''Minor'', ada_code = JStr ''404.2.7'',
       confidence = JNum 0.50, detection_method = JStr ''rule_based_cv'',
       measurements = [(''hardware_features_detected'', JNum 0)]\<rparr>]"
proof -
  have s: "class_name (some_detection ''door'' (0, 0, 2, 8)) = ''door''"
    by (simp add: some_detection_def)
  have b: "height (blank_region 8 2) = 8" "width (blank_region 8 2) = 2"
    "contour_shapes (blank_region 8 2) = []"
    by (simp_all add: blank_region_def)
  have w: "check_width (blank_region 8 2) 8 2 =
     Some \<lparr>vtype = JStr ''Door Width'', severity = JStr ''Critical'', ada_code = JStr ''404.2.3'',
       confidence = JNum 0.70, detection_method = JStr ''rule_based_cv'',
       measurements = [(''aspect_ratio'', JNum 4), (''estimated_width_inches'', JNum 28),
                       (''required_width_inches'', JNum 32)]\<rparr>"
    by (simp add: check_width_def very_narrow_ratio_def round_to_4)
  have h: "check_hardware (blank_region 8 2) 8 2 =
     Some \<lparr>vtype = JStr ''Door Hardware'', severity = JStr ''Minor'', ada_code = JStr ''404.2.7'',
       confidence = JNum 0.50, detection_method = JStr ''rule_based_cv'',
       measurements = [(''hardware_features_detected'', JNum 0)]\<rparr>"
    by (simp add: check_hardware_def blank_region_def Let_def)
  show ?thesis
    by (simp add: analyze_detection_def s lower_door door_objects_def door_analyze_def
        image_size_def b w h check_threshold_blank found_def)
qed

theorem severity_and_confidence_of_records_witness:
  "analyze_detection (\<lambda>d. Some (blank_region 8 2)) (some_detection ''door'' (0, 0, 2, 8)) \<noteq> []
   \<and> list_all valid_record
        (analyze_detection (\<lambda>d. Some (blank_region 8 2)) (some_detection ''door'' (0, 0, 2, 8)))
   \<and> claude_analyze_detection True json_loads (\<lambda>d. EncodeFailed) (\<lambda>d. Some (blank_region 8 2))
        (some_detection ''door'' (0, 0, 2, 8))
       = Inr [mock_violation ''Door Width'' ''Critical'' ''404.2.3'' 0.7]
   \<and> valid_record (mock_violation ''Door Width'' ''Critical'' ''404.2.3'' 0.7)"
proof -
  have m: "claude_analyze_detection True json_loads (\<lambda>d. EncodeFailed)
        (\<lambda>d. Some (blank_region 8 2)) (some_detection ''door'' (0, 0, 2, 8))
       = Inr [mock_violation ''Door Width'' ''Critical'' ''404.2.3'' 0.7]"
    by (simp add: claude_analyze_detection_def parse_response_mock)
       (simp add: some_detection_def blank_region_def image_size_def)
  from severity_and_confidence_of_records[of "\<lambda>d. Some (blank_region 8 2)"
      "some_detection ''door'' (0, 0, 2, 8)" "blank_region 8 2" json_loads "\<lambda>d. EncodeFailed" "[]"]
  show ?thesis
    unfolding m by (simp add: narrow_door_records list_all_iff)
qed

text \<open>
  C1, as stated, fails for the model-backed analyzer. The model answers with a JSON object
  whose one entry has severity "High" and confidence 1.5; the analyzer returns one record
  with that severity and that confidence.
\<close>

theorem model_response_record_counterexample:
  "claude_analyze_detection False json_loads (\<lambda>d. ApiText high_response)
     (\<lambda>d. Some (blank_region 8 2)) (some_detection ''door'' (0, 0, 2, 8))
     = Inr [\<lparr>vtype = JStr ''Door Width'', severity = JStr ''High'', ada_code = JStr ''N/A'',
             confidence = JNum 1.5, detection_method = JStr ''claude_api'',
             measurements = []\<rparr>]
   \<and> \<not> valid_record \<lparr>vtype = JStr ''Door Width'', severity = JStr ''High'',
             ada_code = JStr ''N/A'', confidence = JNum 1.5,
             detection_method = JStr ''claude_api'', measurements = []\<rparr>"
proof
  have l: "json_loads high_response =
     Inr (JObj [(''violations'',
                  JArr [JObj [(''type'', JStr ''Door Width''), (''severity'', JStr ''High''),
                              (''confidence'', JNum 1.5)]])])"
    by code_simp
  show "claude_analyze_detection False json_loads (\<lambda>d. ApiText high_response)
     (\<lambda>d. Some (blank_region 8 2)) (some_detection ''door'' (0, 0, 2, 8))
     = Inr [\<lparr>vtype = JStr ''Door Width'', severity = JStr ''High'', ada_code = JStr ''N/A'',
             confidence = JNum 1.5, detection_method = JStr ''claude_api'',
             measurements = []\<rparr>]"
    by (simp add: claude_analyze_detection_def claude_analyze_def extract_json_def l
        parse_response_def parse_violation_def dict_get_def)
       (simp add: blank_region_def image_size_def)
  show "\<not> valid_record \<lparr>vtype = JStr ''Door Width'', severity = JStr ''High'',
             ada_code = JStr ''N/A'', confidence = JNum 1.5,
             detection_method = JStr ''claude_api'', measurements = []\<rparr>"
    by (simp add: valid_record_def)
qed

section \<open>JSON extraction\<close>

lemma occurs_iff: "occurs sub xs \<longleftrightarrow> (\<exists>n. occurs_at sub xs n)"
proof
  assume "occurs sub xs"
  then show "\<exists>n. occurs_at sub xs n"
    unfolding occurs_def list_ex_iff by blast
next
  assume "\<exists>n. occurs_at sub xs n"
  then obtain n where n: "occurs_at sub xs n" by blast
  then have "n \<in> set [0..<Suc (length xs)]"
    unfolding occurs_at_def set_upt by simp
  with n show "occurs sub xs"
    unfolding occurs_def list_ex_iff by blast
qed

lemma first_at_iff:
  "first_at sub xs n \<longleftrightarrow> occurs_at sub xs n \<and> (\<forall>m<n. \<not> occurs_at sub xs m)"
  by (auto simp: first_at_def list_all_iff)

lemma occurs_at_Nil: "sub \<noteq> [] \<Longrightarrow> \<not> occurs_at sub [] n"
  by (simp add: occurs_at_def)

lemma occurs_at_0: "occurs_at sub xs 0 \<longleftrightarrow> take (length sub) xs = sub"
proof
  assume "occurs_at sub xs 0"
  then show "take (length sub) xs = sub" by (simp add: occurs_at_def)
next
  assume h: "take (length sub) xs = sub"
  then have "length (take (length sub) xs) = length sub" by simp
  then have "length sub \<le> length xs" by simp
  with h show "occurs_at sub xs 0" by (simp add: occurs_at_def)
qed

lemma occurs_at_Suc: "occurs_at sub (c # cs) (Suc n) \<longleftrightarrow> occurs_at sub cs n"
  by (simp add: occurs_at_def)

lemma first_at_Cons_here:
  assumes "occurs_at sub (c # cs) 0"
  shows "first_at sub (c # cs) n \<longleftrightarrow> n = 0"
proof
  assume f: "first_at sub (c # cs) n"
  show "n = 0"
  proof (rule ccontr)
    assume "n \<noteq> 0"
    then have "0 < n" by simp
    with f assms show False unfolding first_at_iff by blast
  qed
next
  assume "n = 0"
  with assms show "first_at sub (c # cs) n" by (simp add: first_at_iff)
qed

lemma first_at_Cons_later:
  assumes "\<not> occurs_at sub (c # cs) 0"
  shows "first_at sub (c # cs) n \<longleftrightarrow> (\<exists>k. n = Suc k \<and> first_at sub cs k)"
proof
  assume f: "first_at sub (c # cs) n"
  with assms have "n \<noteq> 0" unfolding first_at_iff by (metis)
  then obtain k where k: "n = Suc k" by (cases n) auto
  from f have "occurs_at sub cs k" by (simp add: first_at_iff k occurs_at_Suc)
  moreover have "\<not> occurs_at sub cs m" if "m < k" for m
  proof -
    from that have "Suc m < n" by (simp add: k)
    with f have "\<not> occurs_at sub (c # cs) (Suc m)" unfolding first_at_iff by blast
    then show ?thesis by (simp add: occurs_at_Suc)
  qed
  ultimately have "first_at sub cs k" by (simp add: first_at_iff)
  with k show "\<exists>k. n = Suc k \<and> first_at sub cs k" by blast
next
  assume "\<exists>k. n = Suc k \<and> first_at sub cs k"
  then obtain k where k: "n = Suc k" "first_at sub cs k" by blast
  have "\<not> occurs_at sub (c # cs) m" if "m < Suc k" for m
  proof (cases m)
    case 0
    with assms show ?thesis by simp
  next
    case (Suc j)
    with that have "j < k" by simp
    with k(2) have "\<not> occurs_at sub cs j" unfolding first_at_iff by blast
    with Suc show ?thesis by (simp add: occurs_at_Suc)
  qed
  moreover from k(2) have "occurs_at sub (c # cs) (Suc k)"
    by (simp add: first_at_iff occurs_at_Suc)
  ultimately show "first_at sub (c # cs) n"
    unfolding k(1) first_at_iff by blast
qed

lemma find_sub_Some_iff:
  assumes "sub \<noteq> []"
  shows "find_sub sub xs = Some n \<longleftrightarrow> first_at sub xs n"
proof (induction xs arbitrary: n)
  case Nil
  from assms show ?case by (simp add: first_at_iff occurs_at_Nil)
next
  case (Cons c cs)
  show ?case
  proof (cases "take (length sub) (c # cs) = sub")
    case True
    then have z: "occurs_at sub (c # cs) 0" by (simp add: occurs_at_0)
    from True have "find_sub sub (c # cs) = Some 0" by simp
    then have "find_sub sub (c # cs) = Some n \<longleftrightarrow> n = 0" by auto
    also have "\<dots> \<longleftrightarrow> first_at sub (c # cs) n"
      by (simp only: first_at_Cons_here[OF z, of n])
    finally show ?thesis .
  next
    case False
    then have z: "\<not> occurs_at sub (c # cs) 0" by (simp add: occurs_at_0)
    from False have "find_sub sub (c # cs) = map_option Suc (find_sub sub cs)" by simp
    then have "find_sub sub (c # cs) = Some n \<longleftrightarrow> (\<exists>k. n = Suc k \<and> find_sub sub cs = Some k)"
      by (cases "find_sub sub cs") auto
    also have "\<dots> \<longleftrightarrow> (\<exists>k. n = Suc k \<and> first_at sub cs k)"
      by (simp only: Cons.IH)
    also have "\<dots> \<longleftrightarrow> first_at sub (c # cs) n"
      by (simp only: first_at_Cons_later[OF z, of n])
    finally show ?thesis .
  qed
qed

lemma find_sub_None_iff:
  assumes "sub \<noteq> []"
  shows "find_sub sub xs = None \<longleftrightarrow> \<not> occurs sub xs"
proof
  assume n: "find_sub sub xs = None"
  show "\<not> occurs sub xs"
  proof
    assume "occurs sub xs"
    then obtain m where m: "occurs_at sub xs m" by (auto simp: occurs_iff)
    define k where "k = (LEAST m. occurs_at sub xs m)"
    from m have "occurs_at sub xs k" unfolding k_def by (rule LeastI)
    moreover have "\<not> occurs_at sub xs j" if "j < k" for j
      using that unfolding k_def by (rule not_less_Least)
    ultimately have "first_at sub xs k" by (simp add: first_at_iff)
    with find_sub_Some_iff[OF assms, of xs k] n show False by simp
  qed
next
  assume "\<not> occurs sub xs"
  then have "\<not> first_at sub xs n" for n by (auto simp: first_at_iff occurs_iff)
  with find_sub_Some_iff[OF assms, of xs] show "find_sub sub xs = None"
    by (cases "find_sub sub xs") auto
qed

lemma contains_iff: "sub \<noteq> [] \<Longrightarrow> contains sub xs \<longleftrightarrow> occurs sub xs"
  by (simp add: contains_def find_sub_None_iff)

lemma occurs_at_prefix: "occurs_at (a @ b) xs n \<Longrightarrow> occurs_at a xs n"
proof -
  assume h: "occurs_at (a @ b) xs n"
  then have "take (length a) (take (length (a @ b)) (drop n xs)) = take (length a) (a @ b)"
    by (simp only: occurs_at_def)
  then have "take (length a) (drop n xs) = a" by simp
  moreover from h have "n + length a \<le> length xs" by (simp add: occurs_at_def)
  ultimately show ?thesis by (simp add: occurs_at_def)
qed

lemma occurs_json_fence: "occurs ''```json'' xs \<Longrightarrow> occurs ''```'' xs"
  using occurs_at_prefix[of "''```''" "''json''" xs] by (auto simp: occurs_iff)

lemma find_sub_here: "sub \<noteq> [] \<Longrightarrow> find_sub sub (sub @ rest) = Some 0"
  by (cases sub) simp_all

lemma find_sub_skip:
  assumes "sub \<noteq> []" and "hd sub \<notin> set pre"
  shows "find_sub sub (pre @ sub @ rest) = Some (length pre)"
  using assms(2)
proof (induction pre)
  case Nil
  from assms(1) show ?case by (simp add: find_sub_here)
next
  case (Cons p pre)
  from assms(1) obtain c cs where sub_eq: "sub = c # cs" by (cases sub) auto
  with Cons.prems have "p \<noteq> c" by auto
  then have "take (length sub) (p # pre @ sub @ rest) \<noteq> sub"
    by (simp add: sub_eq)
  with Cons show ?case by simp
qed

lemma find_sub_absent:
  assumes "sub \<noteq> []" and "hd sub \<notin> set text"
  shows "find_sub sub text = None"
  using assms(2)
proof (induction "text")
  case Nil
  from assms(1) show ?case by simp
next
  case (Cons p t)
  from assms(1) obtain c cs where sub_eq: "sub = c # cs" by (cases sub) auto
  with Cons.prems have "p \<noteq> c" by auto
  then have "take (length sub) (p # t) \<noteq> sub"
    by (simp add: sub_eq)
  with Cons show ?case by simp
qed

lemma norm_index_nat: "n \<le> m \<Longrightarrow> norm_index (int n) m = n"
  by (simp add: norm_index_def)

lemma py_find_skip:
  assumes "sub \<noteq> []" and "hd sub \<notin> set mid"
  shows "py_find (pre @ mid @ sub @ rest) sub (int (length pre)) = int (length pre + length mid)"
proof -
  have "norm_index (int (length pre)) (length (pre @ mid @ sub @ rest)) = length pre"
    by (rule norm_index_nat) simp
  then show ?thesis
    by (simp add: py_find_def find_sub_skip[OF assms])
qed

lemma py_slice_middle:
  "py_slice (pre @ mid @ rest) (int (length pre)) (int (length pre + length mid)) = mid"
proof -
  have "norm_index (int (length pre)) (length (pre @ mid @ rest)) = length pre"
    by (rule norm_index_nat) simp
  moreover have "norm_index (int (length pre + length mid)) (length (pre @ mid @ rest))
      = length pre + length mid"
    by (rule norm_index_nat) simp
  ultimately show ?thesis
    by (simp add: py_slice_def)
qed

lemma py_rfind_last:
  assumes "sub \<noteq> []" and "last sub \<notin> set post"
  shows "py_rfind (pre @ sub @ post) sub = int (length pre)"
proof -
  from assms have "find_sub (rev sub) (rev post @ rev sub @ rev pre) = Some (length (rev post))"
    by (intro find_sub_skip) (simp_all add: hd_rev)
  then show ?thesis
    by (simp add: py_rfind_def)
qed


lemma py_find_first:
  assumes "sub \<noteq> []" and "a \<le> length tx" and "first_at sub (drop a tx) k"
  shows "py_find tx sub (int a) = int (a + k)"
proof -
  from assms(1,3) have "find_sub sub (drop a tx) = Some k"
    by (simp add: find_sub_Some_iff)
  with assms(2) show ?thesis
    by (simp add: py_find_def norm_index_nat)
qed

lemma py_find_none:
  assumes "sub \<noteq> []" and "a \<le> length tx" and "\<not> occurs sub (drop a tx)"
  shows "py_find tx sub (int a) = - 1"
proof -
  from assms(1,3) have "find_sub sub (drop a tx) = None"
    by (simp add: find_sub_None_iff)
  with assms(2) show ?thesis
    by (simp add: py_find_def norm_index_nat)
qed

lemma py_slice_closed:
  assumes "a \<le> length tx" and "first_at sub (drop a tx) k"
  shows "py_slice tx (int a) (int (a + k)) = take k (drop a tx)"
proof -
  from assms(2) have "k + length sub \<le> length (drop a tx)"
    by (simp add: first_at_iff occurs_at_def)
  with assms(1) have "a + k \<le> length tx" by simp
  then have "norm_index (int (a + k)) (length tx) = a + k" by (rule norm_index_nat)
  moreover from assms(1) have "norm_index (int a) (length tx) = a" by (rule norm_index_nat)
  ultimately show ?thesis by (simp add: py_slice_def)
qed

lemma py_slice_open:
  assumes "a \<le> length tx"
  shows "py_slice tx (int a) (- 1) = butlast (drop a tx)"
proof -
  have "norm_index (- 1) (length tx) = length tx - 1"
    by (simp add: norm_index_def)
  moreover from assms have "norm_index (int a) (length tx) = a" by (rule norm_index_nat)
  ultimately show ?thesis by (simp add: py_slice_def butlast_conv_take)
qed

lemma first_at_bound: "first_at sub xs n \<Longrightarrow> n + length sub \<le> length xs"
  by (simp add: first_at_iff occurs_at_def)

lemma first_at_occurs: "first_at sub xs n \<Longrightarrow> occurs sub xs"
  by (auto simp: first_at_iff occurs_iff)

lemma json_candidate_json_fence:
  assumes "first_at ''```json'' tx n"
  shows "json_candidate tx
           = strip (py_slice tx (int (n + 7)) (py_find tx ''```'' (int (n + 7))))"
proof -
  from first_at_occurs[OF assms] have c: "contains ''```json'' tx"
    by (simp add: contains_iff)
  from assms have "first_at ''```json'' (drop 0 tx) n" by simp
  then have "py_find tx ''```json'' (int 0) = int (0 + n)"
    by (intro py_find_first) simp_all
  then have s: "py_find tx ''```json'' 0 + 7 = int (n + 7)" by simp
  show ?thesis
    unfolding json_candidate_def if_P[OF c] s Let_def by (rule refl)
qed

lemma json_candidate_plain_fence:
  assumes "\<not> occurs ''```json'' tx" and "first_at ''```'' tx n"
  shows "json_candidate tx
           = strip (py_slice tx (int (n + 3)) (py_find tx ''```'' (int (n + 3))))"
proof -
  from assms(1) have c1: "\<not> contains ''```json'' tx"
    by (simp add: contains_iff)
  from first_at_occurs[OF assms(2)] have c2: "contains ''```'' tx"
    by (simp add: contains_iff)
  from assms(2) have "first_at ''```'' (drop 0 tx) n" by simp
  then have "py_find tx ''```'' (int 0) = int (0 + n)"
    by (intro py_find_first) simp_all
  then have s: "py_find tx ''```'' 0 + 3 = int (n + 3)" by simp
  show ?thesis
    unfolding json_candidate_def if_not_P[OF c1] if_P[OF c2] s Let_def by (rule refl)
qed

lemma fenced_closed:
  assumes "a \<le> length tx" and "first_at ''```'' (drop a tx) k"
  shows "py_slice tx (int a) (py_find tx ''```'' (int a)) = take k (drop a tx)"
proof -
  from assms have "py_find tx ''```'' (int a) = int (a + k)"
    by (intro py_find_first) simp_all
  with py_slice_closed[OF assms] show ?thesis by simp
qed

lemma fenced_open:
  assumes "a \<le> length tx" and "\<not> occurs ''```'' (drop a tx)"
  shows "py_slice tx (int a) (py_find tx ''```'' (int a)) = butlast (drop a tx)"
proof -
  from assms have "py_find tx ''```'' (int a) = - 1"
    by (intro py_find_none) simp_all
  with py_slice_open[OF assms(1)] show ?thesis by simp
qed

lemma no_fence:
  assumes "\<not> occurs ''```'' tx"
  shows "\<not> contains ''```json'' tx" and "\<not> contains ''```'' tx"
proof -
  from assms occurs_json_fence[of tx] have "\<not> occurs ''```json'' tx" by (rule contrapos_nn)
  then show "\<not> contains ''```json'' tx" by (simp add: contains_iff)
  from assms show "\<not> contains ''```'' tx" by (simp add: contains_iff)
qed

lemma json_candidate_braces:
  assumes "\<not> occurs ''```'' (pre @ ''{'' @ mid @ ''}'' @ post)"
    and "CHR ''{'' \<notin> set pre" and "CHR ''}'' \<notin> set post"
  shows "json_candidate (pre @ ''{'' @ mid @ ''}'' @ post) = ''{'' @ mid @ ''}''"
proof -
  let ?text = "pre @ ''{'' @ mid @ ''}'' @ post"
  note c = no_fence[OF assms(1)]
  have s: "py_find ?text ''{'' 0 = int (length pre)"
    using py_find_skip[of "''{''" pre "[]" "mid @ ''}'' @ post"] assms(2) by simp
  have e: "py_rfind ?text ''}'' + 1 = int (length pre) + int (length (''{'' @ mid @ ''}''))"
    using py_rfind_last[of "''}''" post "pre @ ''{'' @ mid"] assms(3) by simp
  have sl: "py_slice ?text (int (length pre)) (int (length pre) + int (length (''{'' @ mid @ ''}'')))
      = ''{'' @ mid @ ''}''"
    using py_slice_middle[of pre "''{'' @ mid @ ''}''" post]
    by (simp add: add.commute add.left_commute)
  have ne: "int (length pre) \<noteq> - 1 \<and> int (length pre) + int (length (''{'' @ mid @ ''}'')) \<noteq> 0"
    by simp
  show ?thesis
    unfolding json_candidate_def if_not_P[OF c(1)] if_not_P[OF c(2)] s e Let_def if_P[OF ne] sl
    by (rule refl)
qed

lemma json_candidate_braces_reversed:
  assumes "\<not> occurs ''```'' (pre @ ''}'' @ mid @ ''{'' @ post)"
    and "CHR ''{'' \<notin> set pre \<union> set mid" and "CHR ''}'' \<notin> set mid \<union> set post"
  shows "json_candidate (pre @ ''}'' @ mid @ ''{'' @ post) = []"
proof -
  let ?text = "pre @ ''}'' @ mid @ ''{'' @ post"
  note c = no_fence[OF assms(1)]
  have s: "py_find ?text ''{'' 0 = int (length pre + 1 + length mid)"
    using py_find_skip[of "''{''" "pre @ ''}'' @ mid" "[]" post] assms(2) by simp
  have e: "py_rfind ?text ''}'' + 1 = int (length pre + 1)"
    using py_rfind_last[of "''}''" "mid @ ''{'' @ post" pre] assms(3) by simp
  have sl: "py_slice ?text (int (length pre + 1 + length mid)) (int (length pre + 1)) = []"
    by (simp add: py_slice_def norm_index_def)
  have ne: "int (length pre + 1 + length mid) \<noteq> - 1 \<and> int (length pre + 1) \<noteq> 0"
    by simp
  show ?thesis
    unfolding json_candidate_def if_not_P[OF c(1)] if_not_P[OF c(2)] s e Let_def if_P[OF ne] sl
    by (rule refl)
qed

lemma py_rfind_absent: "sub \<noteq> [] \<Longrightarrow> last sub \<notin> set tx \<Longrightarrow> py_rfind tx sub = - 1"
  using find_sub_absent[of "rev sub" "rev tx"] by (simp add: py_rfind_def hd_rev)

lemma json_candidate_no_braces:
  assumes "\<not> occurs ''```'' tx" and "CHR ''{'' \<notin> set tx \<or> CHR ''}'' \<notin> set tx"
  shows "json_candidate tx = tx"
proof -
  note c = no_fence[OF assms(1)]
  from assms(2) have "\<not> (py_find tx ''{'' 0 \<noteq> - 1 \<and> py_rfind tx ''}'' + 1 \<noteq> 0)"
  proof
    assume "CHR ''{'' \<notin> set tx"
    then have "find_sub ''{'' (drop 0 tx) = None" by (intro find_sub_absent) simp_all
    then have "py_find tx ''{'' 0 = - 1" by (simp add: py_find_def norm_index_def)
    then show ?thesis by simp
  next
    assume "CHR ''}'' \<notin> set tx"
    then have "py_rfind tx ''}'' = - 1" by (intro py_rfind_absent) simp_all
    then show ?thesis by simp
  qed
  then show ?thesis
    unfolding json_candidate_def if_not_P[OF c(1)] if_not_P[OF c(2)] Let_def by (rule if_not_P)
qed


text \<open>
  C8, amended. The strategies are taken in the order whole text, fenced block, brace span:
  \<^item> the whole text is decoded first, and its value is returned when it decodes;
  \<^item> when it fails to decode, one candidate is decoded: for a text with a
    \<^verbatim>\<open>```json\<close> fence, the text between the first such fence and the next
    \<^verbatim>\<open>```\<close> after it, stripped of surrounding white space; else, for a text with a
    \<^verbatim>\<open>```\<close> fence, the text between the first fence and the next one, stripped; only
    for a text with no fence, the span from the first \<open>{\<close> to the last \<open>}\<close>, or the
    whole text when a brace is missing. A fence that is never closed takes the rest of the
    text without its last character.
  So a response whose payload is wrapped in \<^verbatim>\<open>```json\<close> fences gives the value decoded
  from exactly the payload. When the candidate fails to decode too, the result has an empty
  \<open>violations\<close> list and its \<open>notes\<close> are the first 200 characters of the text, which
  are empty exactly when the text is. An exception of the decoder other than a decoding
  failure is not handled.
\<close>

theorem extract_json_strategies:
  "(loads text = Inr j \<longrightarrow> extract_json loads text = Inr j)
   \<and> (loads text = Inl JSONDecodeError \<longrightarrow>
        extract_json loads text
          = (case loads (json_candidate text) of
               Inr j \<Rightarrow> Inr j
             | Inl e \<Rightarrow> if e \<noteq> JSONDecodeError then Inl e else Inr (parse_error text)))
   \<and> (first_at ''```json'' text n \<and> first_at ''```'' (drop (n + 7) text) k \<longrightarrow>
        json_candidate text = strip (take k (drop (n + 7) text)))
   \<and> (first_at ''```json'' text n \<and> \<not> occurs ''```'' (drop (n + 7) text) \<longrightarrow>
        json_candidate text = strip (butlast (drop (n + 7) text)))
   \<and> (\<not> occurs ''```json'' text \<and> first_at ''```'' text n
        \<and> first_at ''```'' (drop (n + 3) text) k \<longrightarrow>
        json_candidate text = strip (take k (drop (n + 3) text)))
   \<and> (\<not> occurs ''```json'' text \<and> first_at ''```'' text n
        \<and> \<not> occurs ''```'' (drop (n + 3) text) \<longrightarrow>
        json_candidate text = strip (butlast (drop (n + 3) text)))
   \<and> (\<not> occurs ''```'' text \<and> text = pre @ ''{'' @ mid @ ''}'' @ post
        \<and> CHR ''{'' \<notin> set pre \<and> CHR ''}'' \<notin> set post \<longrightarrow>
        json_candidate text = ''{'' @ mid @ ''}'')
   \<and> (\<not> occurs ''```'' text \<and> text = pre @ ''}'' @ mid @ ''{'' @ post
        \<and> CHR ''{'' \<notin> set pre \<union> set mid \<and> CHR ''}'' \<notin> set mid \<union> set post \<longrightarrow>
        json_candidate text = [])
   \<and> (\<not> occurs ''```'' text \<and> (CHR ''{'' \<notin> set text \<or> CHR ''}'' \<notin> set text) \<longrightarrow>
        json_candidate text = text)
   \<and> (loads text = Inl JSONDecodeError \<and> loads (json_candidate text) = Inl JSONDecodeError \<longrightarrow>
        extract_json loads text
          = Inr (JObj [(''violations'', JArr []),
                       (''overall_assessment'', JStr ''Parse error''),
                       (''notes'', JStr (take 200 text))]))
   \<and> (take 200 text = [] \<longleftrightarrow> text = [])
   \<and> (loads text = Inl e \<and> e \<noteq> JSONDecodeError \<longrightarrow> extract_json loads text = Inl e)"
proof (intro conjI impI)
  assume "loads text = Inr j"
  then show "extract_json loads text = Inr j" by (simp add: extract_json_def)
next
  assume "loads text = Inl JSONDecodeError"
  then show "extract_json loads text
          = (case loads (json_candidate text) of
               Inr j \<Rightarrow> Inr j
             | Inl e \<Rightarrow> if e \<noteq> JSONDecodeError then Inl e else Inr (parse_error text))"
    by (simp add: extract_json_def)
next
  assume a: "first_at ''```json'' text n \<and> first_at ''```'' (drop (n + 7) text) k"
  from first_at_bound[OF a[THEN conjunct1]] have b: "n + 7 \<le> length text" by simp
  show "json_candidate text = strip (take k (drop (n + 7) text))"
    unfolding json_candidate_json_fence[OF a[THEN conjunct1]]
      fenced_closed[OF b a[THEN conjunct2]] by (rule refl)
next
  assume a: "first_at ''```json'' text n \<and> \<not> occurs ''```'' (drop (n + 7) text)"
  from first_at_bound[OF a[THEN conjunct1]] have b: "n + 7 \<le> length text" by simp
  show "json_candidate text = strip (butlast (drop (n + 7) text))"
    unfolding json_candidate_json_fence[OF a[THEN conjunct1]]
      fenced_open[OF b a[THEN conjunct2]] by (rule refl)
next
  assume a: "\<not> occurs ''```json'' text \<and> first_at ''```'' text n
        \<and> first_at ''```'' (drop (n + 3) text) k"
  note f = a[THEN conjunct2, THEN conjunct1]
  from first_at_bound[OF f] have b: "n + 3 \<le> length text" by simp
  show "json_candidate text = strip (take k (drop (n + 3) text))"
    unfolding json_candidate_plain_fence[OF a[THEN conjunct1] f]
      fenced_closed[OF b a[THEN conjunct2, THEN conjunct2]] by (rule refl)
next
  assume a: "\<not> occurs ''```json'' text \<and> first_at ''```'' text n
        \<and> \<not> occurs ''```'' (drop (n + 3) text)"
  note f = a[THEN conjunct2, THEN conjunct1]
  from first_at_bound[OF f] have b: "n + 3 \<le> length text" by simp
  show "json_candidate text = strip (butlast (drop (n + 3) text))"
    unfolding json_candidate_plain_fence[OF a[THEN conjunct1] f]
      fenced_open[OF b a[THEN conjunct2, THEN conjunct2]] by (rule refl)
next
  assume a: "\<not> occurs ''```'' text \<and> text = pre @ ''{'' @ mid @ ''}'' @ post
        \<and> CHR ''{'' \<notin> set pre \<and> CHR ''}'' \<notin> set post"
  note t = a[THEN conjunct2, THEN conjunct1] and p = a[THEN conjunct2, THEN conjunct2]
  have "\<not> occurs ''```'' (pre @ ''{'' @ mid @ ''}'' @ post)"
    using a[THEN conjunct1] unfolding t .
  with p show "json_candidate text = ''{'' @ mid @ ''}''"
    unfolding t by (intro json_candidate_braces) simp_all
next
  assume a: "\<not> occurs ''```'' text \<and> text = pre @ ''}'' @ mid @ ''{'' @ post
        \<and> CHR ''{'' \<notin> set pre \<union> set mid \<and> CHR ''}'' \<notin> set mid \<union> set post"
  note t = a[THEN conjunct2, THEN conjunct1] and p = a[THEN conjunct2, THEN conjunct2]
  have "\<not> occurs ''```'' (pre @ ''}'' @ mid @ ''{'' @ post)"
    using a[THEN conjunct1] unfolding t .
  with p show "json_candidate text = []"
    unfolding t by (intro json_candidate_braces_reversed) simp_all
next
  assume "\<not> occurs ''```'' text \<and> (CHR ''{'' \<notin> set text \<or> CHR ''}'' \<notin> set text)"
  then show "json_candidate text = text"
    by (intro json_candidate_no_braces) simp_all
next
  assume "loads text = Inl JSONDecodeError \<and> loads (json_candidate text) = Inl JSONDecodeError"
  then show "extract_json loads text
          = Inr (JObj [(''violations'', JArr []),
                       (''overall_assessment'', JStr ''Parse error''),
                       (''notes'', JStr (take 200 text))])"
    by (simp add: extract_json_def parse_error_def)
next
  show "take 200 text = [] \<longleftrightarrow> text = []" by simp
next
  assume "loads text = Inl e \<and> e \<noteq> JSONDecodeError"
  then show "extract_json loads text = Inl e" by (simp add: extract_json_def)
qed


theorem extract_json_strategies_witness:
  \<open>extract_json json_loads fenced_response = Inr (JObj [(''violations'', JArr [])])
   \<and> extract_json json_loads ''``` {"violations": []} ```''
       = Inr (JObj [(''violations'', JArr [])])
   \<and> extract_json json_loads ''Here: {"violations": []} ok''
       = Inr (JObj [(''violations'', JArr [])])
   \<and> extract_json json_loads ''no json here''
       = Inr (JObj [(''violations'', JArr []),
                    (''overall_assessment'', JStr ''Parse error''),
                    (''notes'', JStr ''no json here'')])
   \<and> extract_json json_loads ''{"violations": []}'' = Inr (JObj [(''violations'', JArr [])])\<close>
proof (intro conjI)
  have whole: "json_loads fenced_response = Inl JSONDecodeError"
    by code_simp
  have fences: "first_at ''```json'' fenced_response 8"
    "first_at ''```'' (drop (8 + 7) fenced_response) 20"
    by code_simp+
  have inner: \<open>strip (take 20 (drop (8 + 7) fenced_response)) = ''{"violations": []}''\<close>
    by code_simp
  have payload: \<open>json_loads ''{"violations": []}'' = Inr (JObj [(''violations'', JArr [])])\<close>
    by code_simp
  note inst = extract_json_strategies[of json_loads fenced_response _ 8 20]
  from inst[THEN conjunct2, THEN conjunct2, THEN conjunct1] fences
  have cand: \<open>json_candidate fenced_response = ''{"violations": []}''\<close>
    by (simp only: inner simp_thms)
  from inst[THEN conjunct2, THEN conjunct1] whole
  show "extract_json json_loads fenced_response = Inr (JObj [(''violations'', JArr [])])"
    by (simp add: cand payload)
  have plain_whole: \<open>json_loads ''``` {"violations": []} ```'' = Inl JSONDecodeError\<close>
    by code_simp
  have plain_fences: \<open>\<not> occurs ''```json'' ''``` {"violations": []} ```''\<close>
    \<open>first_at ''```'' ''``` {"violations": []} ```'' 0\<close>
    \<open>first_at ''```'' (drop (0 + 3) ''``` {"violations": []} ```'') 20\<close>
    by code_simp+
  have plain_inner:
    \<open>strip (take 20 (drop (0 + 3) ''``` {"violations": []} ```'')) = ''{"violations": []}''\<close>
    by code_simp
  note plain = extract_json_strategies[of json_loads \<open>''``` {"violations": []} ```''\<close> _ 0 20]
  from plain[THEN conjunct2, THEN conjunct2, THEN conjunct2, THEN conjunct2, THEN conjunct1]
    plain_fences
  have plain_cand: \<open>json_candidate ''``` {"violations": []} ```'' = ''{"violations": []}''\<close>
    by (simp only: plain_inner simp_thms)
  from plain[THEN conjunct2, THEN conjunct1] plain_whole
  show \<open>extract_json json_loads ''``` {"violations": []} ```''
       = Inr (JObj [(''violations'', JArr [])])\<close>
    by (simp add: plain_cand payload)
  have brace_whole: \<open>json_loads ''Here: {"violations": []} ok'' = Inl JSONDecodeError\<close>
    by code_simp
  have brace_fences: \<open>\<not> occurs ''```'' ''Here: {"violations": []} ok''\<close>
    by code_simp
  have brace_split: \<open>''Here: {"violations": []} ok''
      = ''Here: '' @ ''{'' @ ''"violations": []'' @ ''}'' @ '' ok''\<close>
    \<open>CHR ''{'' \<notin> set ''Here: ''\<close> \<open>CHR ''}'' \<notin> set '' ok''\<close>
    by simp_all
  note brace = extract_json_strategies[of json_loads \<open>''Here: {"violations": []} ok''\<close>
      _ _ _ "''Here: ''" \<open>''"violations": []''\<close> "'' ok''"]
  have \<open>json_candidate ''Here: {"violations": []} ok'' = ''{'' @ ''"violations": []'' @ ''}''\<close>
    by (rule brace[THEN conjunct2, THEN conjunct2, THEN conjunct2, THEN conjunct2,
          THEN conjunct2, THEN conjunct2, THEN conjunct1, THEN mp])
      (intro conjI brace_fences brace_split)
  then have brace_cand:
    \<open>json_candidate ''Here: {"violations": []} ok'' = ''{"violations": []}''\<close>
    by (simp only: append.simps)
  from brace[THEN conjunct2, THEN conjunct1] brace_whole
  show \<open>extract_json json_loads ''Here: {"violations": []} ok''
       = Inr (JObj [(''violations'', JArr [])])\<close>
    by (simp add: brace_cand payload)
  have none: "json_loads ''no json here'' = Inl JSONDecodeError"
    "json_loads (json_candidate ''no json here'') = Inl JSONDecodeError"
    by code_simp+
  from extract_json_strategies[of json_loads "''no json here''", THEN conjunct2, THEN conjunct2, THEN conjunct2, THEN conjunct2, THEN conjunct2, THEN conjunct2, THEN conjunct2, THEN conjunct2, THEN conjunct2, THEN conjunct1] none
  show "extract_json json_loads ''no json here''
       = Inr (JObj [(''violations'', JArr []),
                    (''overall_assessment'', JStr ''Parse error''),
                    (''notes'', JStr ''no json here'')])"
    by simp
  from extract_json_strategies[of json_loads \<open>''{"violations": []}''\<close>
      "JObj [(''violations'', JArr [])]", THEN conjunct1] payload
  show \<open>extract_json json_loads ''{"violations": []}'' = Inr (JObj [(''violations'', JArr [])])\<close>
    by simp
qed

lemma json_loads_limited_deep:
  "limit < n \<Longrightarrow> json_loads_limited limit (replicate n (CHR ''['')) = Inl RecursionError"
proof -
  assume n: "limit < n"
  then have "replicate n (CHR ''['') \<noteq> []" by auto
  then have "hd (replicate n (CHR ''['')) = CHR ''[''" by (cases n) simp_all
  then have "skip_ws (replicate n (CHR ''['')) = replicate n (CHR ''['')"
    unfolding skip_ws_def dropWhile_eq_self_iff by (simp add: is_ws_def)
  moreover have "takeWhile (\<lambda>c. c = CHR ''['') (replicate n (CHR ''['')) = replicate n (CHR ''['')"
    unfolding takeWhile_eq_all_conv by simp
  ultimately show ?thesis using n by (simp add: json_loads_limited_def)
qed

text \<open>
  C8, as stated, fails on the empty text: the whole text does not decode, it has no fence and
  no brace, so the candidate is the text itself and fails too; the result has an empty
  \<open>violations\<close> list and empty \<open>notes\<close>. It fails as well where the decoder raises
  something other than a decoding failure, as \<open>json.loads\<close> does with \<open>RecursionError\<close>
  on a text of 2000 opening brackets under a recursion limit of 1000: the only handler is for
  \<open>JSONDecodeError\<close>, so the exception leaves the function and no object is returned.
\<close>

theorem extract_json_empty_text_counterexample:
  "json_loads [] = Inl JSONDecodeError
   \<and> json_loads (json_candidate []) = Inl JSONDecodeError
   \<and> extract_json json_loads []
       = Inr (JObj [(''violations'', JArr []),
                    (''overall_assessment'', JStr ''Parse error''),
                    (''notes'', JStr [])])
   \<and> extract_json (json_loads_limited 1000) (replicate 2000 (CHR ''['')) = Inl RecursionError"
proof (intro conjI)
  show "json_loads [] = Inl JSONDecodeError"
    and "json_loads (json_candidate []) = Inl JSONDecodeError"
    and "extract_json json_loads []
       = Inr (JObj [(''violations'', JArr []),
                    (''overall_assessment'', JStr ''Parse error''),
                    (''notes'', JStr [])])"
    by code_simp+
  have "json_loads_limited 1000 (replicate 2000 (CHR ''['')) = Inl RecursionError"
    by (rule json_loads_limited_deep) simp
  then show "extract_json (json_loads_limited 1000) (replicate 2000 (CHR ''['')) = Inl RecursionError"
    by (simp add: extract_json_def)
qed

end
